theory Spec2Isabelle
  imports Main "HOL-Library.Sublist"
begin

section \<open>Python strings\<close>

text \<open>
  A Python \<open>str\<close> is a sequence of Unicode code points: slicing, \<open>len\<close> and the
  character classes of \<open>re\<close> all count code points. A string is therefore a list of
  code points, each a natural number. ASCII literals are written through \<open>asc\<close>.
\<close>

type_synonym codepoint = nat
type_synonym pystr = "codepoint list"

definition asc :: "string \<Rightarrow> pystr" where
  "asc s = map of_char s"

text \<open>
  \<open>\s\<close> of \<open>re\<close> on a \<open>str\<close> pattern and \<open>str.strip()\<close> use the same test
  (\<open>Py_UNICODE_ISSPACE\<close>): the code points below.
\<close>

definition is_space :: "codepoint \<Rightarrow> bool" where
  "is_space c \<longleftrightarrow>
     (9 \<le> c \<and> c \<le> 13) \<or> (28 \<le> c \<and> c \<le> 32) \<or> c = 133 \<or> c = 160 \<or> c = 5760 \<or>
     (8192 \<le> c \<and> c \<le> 8202) \<or> c = 8232 \<or> c = 8233 \<or> c = 8239 \<or> c = 8287 \<or> c = 12288"

text \<open>
  \<open>\w\<close> is an alphanumeric code point or the underscore. On ASCII the alphanumerics are
  the digits and the letters; beyond ASCII they are given by the Unicode database of the
  Python runtime, which is the parameter \<open>uni\<close>.
\<close>

definition is_word :: "(codepoint \<Rightarrow> bool) \<Rightarrow> codepoint \<Rightarrow> bool" where
  "is_word uni c \<longleftrightarrow>
     (if c < 128
      then (48 \<le> c \<and> c \<le> 57) \<or> (65 \<le> c \<and> c \<le> 90) \<or> (97 \<le> c \<and> c \<le> 122) \<or> c = 95
      else uni c)"

text \<open>\<open>needle in haystack\<close> on strings.\<close>

fun contains :: "pystr \<Rightarrow> pystr \<Rightarrow> bool" where
  "contains p [] = (p = [])"
| "contains p (c # cs) = (prefix p (c # cs) \<or> contains p cs)"

text \<open>\<open>str(i)\<close> for a non-negative integer.\<close>

function str_nat :: "nat \<Rightarrow> pystr" where
  "str_nat n = (if n < 10 then [48 + n] else str_nat (n div 10) @ [48 + n mod 10])"
  by pat_completeness auto
termination
  by (relation "measure id") auto

declare str_nat.simps [simp del]

text \<open>\<open>sep.join(xs)\<close>.\<close>

fun join :: "pystr \<Rightarrow> pystr list \<Rightarrow> pystr" where
  "join sep [] = []"
| "join sep [x] = x"
| "join sep (x # y # ys) = x @ sep @ join sep (y # ys)"

section \<open>mcp\_client.py: extraction of image URLs\<close>

text \<open>
  A pattern is modelled by its matcher at a given position: applied to the text that
  starts at the position, it returns the captured group and the length of the whole
  match, or \<open>None\<close> when the pattern does not match there.
\<close>

type_synonym matcher = "pystr \<Rightarrow> (pystr \<times> nat) option"

text \<open>
  \<open>https?://\<close>: the optional \<open>s\<close> is tried first; the scheme matched and the rest of the
  text are returned.
\<close>

definition match_scheme :: "pystr \<Rightarrow> (pystr \<times> pystr) option" where
  "match_scheme t =
     (if prefix (asc ''https://'') t then Some (asc ''https://'', drop 8 t)
      else if prefix (asc ''http://'') t then Some (asc ''http://'', drop 7 t)
      else None)"

text \<open>
  \<open>https?://[^\s]+\<close>: nothing follows the greedy \<open>[^\s]+\<close>, so it takes the longest run
  of non-whitespace code points, which must not be empty.
\<close>

definition match_url :: "pystr \<Rightarrow> pystr option" where
  "match_url t =
     (case match_scheme t of
        None \<Rightarrow> None
      | Some (s, r) \<Rightarrow>
          (let run = takeWhile (\<lambda>c. \<not> is_space c) r
           in if run = [] then None else Some (s @ run)))"

text \<open>\<open>\.(?:jpg|jpeg|png|gif)\<close> at the start of a text, alternatives in order.\<close>

definition match_ext :: "pystr \<Rightarrow> pystr option" where
  "match_ext t =
     (if prefix (asc ''.jpg'') t then Some (asc ''.jpg'')
      else if prefix (asc ''.jpeg'') t then Some (asc ''.jpeg'')
      else if prefix (asc ''.png'') t then Some (asc ''.png'')
      else if prefix (asc ''.gif'') t then Some (asc ''.gif'')
      else None)"

text \<open>
  Backtracking of the greedy \<open>[^\s]+\<close> before the extension: \<open>run\<close> is the longest run
  of non-whitespace code points, \<open>k\<close> the number of them the quantifier currently holds.
  It gives code points back one at a time, down to one, until the extension matches.
\<close>

fun backtrack_ext :: "nat \<Rightarrow> pystr \<Rightarrow> pystr option" where
  "backtrack_ext 0 run = None"
| "backtrack_ext (Suc k) run =
     (case match_ext (drop (Suc k) run) of
        Some e \<Rightarrow> Some (take (Suc k) run @ e)
      | None \<Rightarrow> backtrack_ext k run)"

text \<open>\<open>https?://[^\s]+\.(?:jpg|jpeg|png|gif)\<close>.\<close>

definition match_image_url :: "pystr \<Rightarrow> pystr option" where
  "match_image_url t =
     (case match_scheme t of
        None \<Rightarrow> None
      | Some (s, r) \<Rightarrow>
          (let run = takeWhile (\<lambda>c. \<not> is_space c) r
           in case backtrack_ext (length run) run of
                None \<Rightarrow> None
              | Some u \<Rightarrow> Some (s @ u)))"

text \<open>A literal label followed by one capturing group.\<close>

definition labelled :: "pystr \<Rightarrow> (pystr \<Rightarrow> pystr option) \<Rightarrow> matcher" where
  "labelled lab m t =
     (if prefix lab t
      then (case m (drop (length lab) t) of
              None \<Rightarrow> None
            | Some u \<Rightarrow> Some (u, length lab + length u))
      else None)"

text \<open>
  The four patterns of \<open>nasa_patterns\<close>, in the order of the source. The labels start
  with U+1F5BC U+FE0F (framed picture), U+1F52D (telescope) and U+1F517 (link).
\<close>

definition image_url_label :: pystr where
  "image_url_label = [128444, 65039] @ asc '' Image URL: ''"

definition hd_image_label :: pystr where
  "hd_image_label = [128301] @ asc '' HD Image: ''"

definition link_image_label :: pystr where
  "link_image_label = [128279] @ asc '' Image: ''"

definition nasa_patterns :: "matcher list" where
  "nasa_patterns =
     [labelled image_url_label match_url,
      labelled hd_image_label match_url,
      labelled link_image_label match_image_url,
      labelled [] match_image_url]"

text \<open>
  \<open>re.findall(pattern, text)\<close> with one group: the scan goes from left to right; where
  the pattern matches, the group is emitted and the scan resumes after the match, so the
  matches do not overlap; elsewhere it moves one code point on. The counter is the number
  of code points still covered by the last match.
\<close>

fun findall_from :: "matcher \<Rightarrow> nat \<Rightarrow> pystr \<Rightarrow> pystr list" where
  "findall_from m skip [] = []"
| "findall_from m (Suc skip) (c # cs) = findall_from m skip cs"
| "findall_from m 0 (c # cs) =
     (case m (c # cs) of
        None \<Rightarrow> findall_from m 0 cs
      | Some (g, n) \<Rightarrow> g # findall_from m (n - 1) cs)"

definition findall :: "matcher \<Rightarrow> pystr \<Rightarrow> pystr list" where
  "findall m t = findall_from m 0 t"

text \<open>The loop that removes duplicates while preserving order.\<close>

fun unique_loop :: "pystr set \<Rightarrow> pystr list \<Rightarrow> pystr list \<Rightarrow> pystr list" where
  "unique_loop seen unique_images [] = unique_images"
| "unique_loop seen unique_images (img # images) =
     (if img \<notin> seen
      then unique_loop (insert img seen) (unique_images @ [img]) images
      else unique_loop seen unique_images images)"

definition collect_matches :: "pystr \<Rightarrow> pystr list" where
  "collect_matches t = foldl (\<lambda>images pattern. images @ findall pattern t) [] nasa_patterns"

definition extract_images_from_text :: "pystr \<Rightarrow> pystr list" where
  "extract_images_from_text t = unique_loop {} [] (collect_matches t)"

text \<open>The loop of \<open>save_to_markdown\<close> that gathers the images of all tool outputs.\<close>

definition all_images :: "pystr list \<Rightarrow> pystr list" where
  "all_images tool_outputs =
     foldl (\<lambda>acc output. acc @ extract_images_from_text output) [] tool_outputs"

section \<open>mcp\_client.py: the report\<close>

text \<open>
  The slug of the question in the file name:
  \<open>re.sub(r'[^\w\s-]', '', question)[:50].strip().replace(' ', '_')\<close>.
\<close>

definition keep_char :: "(codepoint \<Rightarrow> bool) \<Rightarrow> codepoint \<Rightarrow> bool" where
  "keep_char uni c \<longleftrightarrow> is_word uni c \<or> is_space c \<or> c = 45"

definition strip :: "pystr \<Rightarrow> pystr" where
  "strip s = rev (dropWhile is_space (rev (dropWhile is_space s)))"

definition replace_space :: "codepoint \<Rightarrow> codepoint" where
  "replace_space c = (if c = 32 then 95 else c)"

definition safe_question :: "(codepoint \<Rightarrow> bool) \<Rightarrow> pystr \<Rightarrow> pystr" where
  "safe_question uni question =
     map replace_space (strip (take 50 (filter (keep_char uni) question)))"

text \<open>
  \<open>timestamp\<close> is the value of \<open>datetime.now().strftime("%Y%m%d_%H%M%S")\<close> at the call.
\<close>

definition filename :: "(codepoint \<Rightarrow> bool) \<Rightarrow> pystr \<Rightarrow> pystr \<Rightarrow> pystr" where
  "filename uni timestamp question =
     timestamp @ asc ''_'' @ safe_question uni question @ asc ''.md''"

definition caption_of :: "pystr \<Rightarrow> pystr" where
  "caption_of img_url =
     (if contains (asc ''apod'') img_url \<or> contains (asc ''astronomy'') img_url
      then asc ''Astronomy Picture''
      else if contains (asc ''mars'') img_url then asc ''Mars Rover Photo''
      else asc ''Image'')"

definition nl :: pystr where
  "nl = [10]"

definition fence :: pystr where
  "fence = [96, 96, 96]"

text \<open>The body of the loop over \<open>enumerate(all_images, 1)\<close>.\<close>

definition image_entry :: "nat \<Rightarrow> pystr \<Rightarrow> pystr" where
  "image_entry i img_url =
     (let caption = caption_of img_url
      in asc ''### '' @ caption @ asc '' '' @ str_nat i @ nl @ nl
         @ asc ''!['' @ caption @ asc '' '' @ str_nat i @ asc '']('' @ img_url @ asc '')'' @ nl @ nl
         @ asc ''[Direct Link]('' @ img_url @ asc '')'' @ nl @ nl)"

fun image_entries :: "nat \<Rightarrow> pystr list \<Rightarrow> pystr" where
  "image_entries i [] = []"
| "image_entries i (img_url # rest) = image_entry i img_url @ image_entries (Suc i) rest"

text \<open>
  What is written for one tool output between the fences: \<open>output[:2000]\<close>, and the
  marker when \<open>len(output) > 2000\<close>.
\<close>

definition truncation_marker :: pystr where
  "truncation_marker = nl @ asc ''... (truncated)''"

definition truncated_output :: "pystr \<Rightarrow> pystr" where
  "truncated_output output =
     take 2000 output @ (if length output > 2000 then truncation_marker else [])"

definition tool_output_entry :: "nat \<Rightarrow> pystr \<Rightarrow> pystr" where
  "tool_output_entry i output =
     asc ''### Tool Output '' @ str_nat i @ nl @ nl
     @ fence @ nl
     @ truncated_output output
     @ nl @ fence @ nl @ nl"

fun tool_output_entries :: "nat \<Rightarrow> pystr list \<Rightarrow> pystr" where
  "tool_output_entries i [] = []"
| "tool_output_entries i (output # rest) =
     tool_output_entry i output @ tool_output_entries (Suc i) rest"

text \<open>
  \<open>md_content\<close>; \<open>date\<close> is the value of
  \<open>datetime.now().strftime('%Y-%m-%d %H:%M:%S')\<close>.
\<close>

definition md_content :: "pystr \<Rightarrow> pystr \<Rightarrow> pystr \<Rightarrow> pystr list \<Rightarrow> pystr" where
  "md_content date question answer tool_outputs =
     asc ''# MCP Query Result'' @ nl @ nl
     @ asc ''**Date:** '' @ date @ nl @ nl
     @ asc ''## Question'' @ nl @ nl @ question @ nl @ nl
     @ asc ''## Answer'' @ nl @ nl @ answer @ nl @ nl
     @ (if all_images tool_outputs \<noteq> []
        then asc ''## Images'' @ nl @ nl @ image_entries 1 (all_images tool_outputs)
        else [])
     @ (if tool_outputs \<noteq> []
        then asc ''## Tool Outputs'' @ nl @ nl
             @ asc ''<details>'' @ nl
             @ asc ''<summary>Click to expand raw tool outputs</summary>'' @ nl @ nl
             @ tool_output_entries 1 tool_outputs
             @ asc ''</details>'' @ nl
        else [])"

subsection \<open>Errors and the file system\<close>

text \<open>
  Exceptions are values. The constructor tells which collaborator raised; the argument
  is \<open>str(e)\<close>.
\<close>

datatype error =
    CatalogueError pystr
  | PlannerError pystr
  | ToolError pystr
  | PersistenceError pystr
  | IndexError pystr

fun error_message :: "error \<Rightarrow> pystr" where
  "error_message (CatalogueError m) = m"
| "error_message (PlannerError m) = m"
| "error_message (ToolError m) = m"
| "error_message (PersistenceError m) = m"
| "error_message (IndexError m) = m"

text \<open>
  The part of the file system that \<open>save_to_markdown\<close> touches: the directory
  \<open>outputs\<close> under the working directory and the files in it. A write replaces the
  whole content of a file or fails and leaves the files as they were.
\<close>

record filesystem =
  cwd_writable :: bool
  outputs_exists :: bool
  outputs_writable :: bool
  outputs_files :: "pystr \<rightharpoonup> pystr"

text \<open>\<open>output_dir.mkdir(exist_ok=True)\<close>.\<close>

definition mkdir_outputs :: "filesystem \<Rightarrow> error + filesystem" where
  "mkdir_outputs fs =
     (if outputs_exists fs then Inr fs
      else if cwd_writable fs
      then Inr (fs\<lparr>outputs_exists := True, outputs_writable := True\<rparr>)
      else Inl (PersistenceError (asc ''Permission denied'')))"

text \<open>\<open>filepath.write_text(md_content)\<close>.\<close>

definition write_text :: "pystr \<Rightarrow> pystr \<Rightarrow> filesystem \<Rightarrow> error + filesystem" where
  "write_text name content fs =
     (if outputs_exists fs \<and> outputs_writable fs
      then Inr (fs\<lparr>outputs_files := (outputs_files fs)(name \<mapsto> content)\<rparr>)
      else Inl (PersistenceError (asc ''Permission denied'')))"

text \<open>
  \<open>save_to_markdown\<close>: the path on success or the exception raised, and the file system
  afterwards.
\<close>

definition save_to_markdown ::
  "(codepoint \<Rightarrow> bool) \<Rightarrow> pystr \<Rightarrow> pystr \<Rightarrow> pystr \<Rightarrow> pystr \<Rightarrow> pystr list \<Rightarrow> filesystem
     \<Rightarrow> (error + pystr) \<times> filesystem" where
  "save_to_markdown uni timestamp date question answer tool_outputs fs =
     (case mkdir_outputs fs of
        Inl e \<Rightarrow> (Inl e, fs)
      | Inr fs1 \<Rightarrow>
          (let name = filename uni timestamp question;
               content = md_content date question answer tool_outputs
           in case write_text name content fs1 of
                Inl e \<Rightarrow> (Inl e, fs1)
              | Inr fs2 \<Rightarrow> (Inr (asc ''outputs/'' @ name), fs2)))"

subsection \<open>answer\_question and main\<close>

datatype message = HumanMessage pystr | AIMessage pystr | ToolMessage pystr

fun content :: "message \<Rightarrow> pystr" where
  "content (HumanMessage c) = c"
| "content (AIMessage c) = c"
| "content (ToolMessage c) = c"

fun is_tool_message :: "message \<Rightarrow> bool" where
  "is_tool_message (ToolMessage c) = True"
| "is_tool_message m = False"

text \<open>
  The collaborators of a run: the Unicode table of the runtime, the tool catalogue
  (\<open>client.get_tools()\<close>, here the tool names), the agent built by
  \<open>create_react_agent\<close> (\<open>agent.ainvoke\<close> on the question gives the messages of the
  response or raises), and the clock read twice by \<open>save_to_markdown\<close>.
\<close>

record client_env =
  uni_alnum :: "codepoint \<Rightarrow> bool"
  get_tools :: "error + pystr list"
  agent_ainvoke :: "pystr \<Rightarrow> error + message list"
  now_stamp :: pystr
  now_date :: pystr

text \<open>
  What is printed, one constructor for each \<open>print\<close> or group of prints of the source:
  the missing-key lines, the usage lines, the banner with the question, the list of
  tools, the thinking line, the answer, the location of the report, the error line
  \<open>Error: {e}\<close> and the hint that follows it.
\<close>

datatype event =
    MissingKeyLines
  | UsageLines
  | Banner pystr
  | ToolsLine "pystr list"
  | ThinkingLine
  | AnswerLines pystr
  | SavedLine pystr
  | ErrorLine pystr
  | HintLine

text \<open>
  \<open>answer_question\<close>: the pair \<open>(final_answer, filepath)\<close> or the exception that
  leaves the function, the file system afterwards, and what was printed.
  \<open>response["messages"][-1]\<close> raises on an empty list.
\<close>

definition answer_question ::
  "client_env \<Rightarrow> pystr \<Rightarrow> filesystem \<Rightarrow> (error + pystr \<times> pystr) \<times> filesystem \<times> event list" where
  "answer_question env question fs =
     (case get_tools env of
        Inl e \<Rightarrow> (Inl e, fs, [])
      | Inr tools \<Rightarrow>
          (case agent_ainvoke env question of
             Inl e \<Rightarrow> (Inl e, fs, [ToolsLine tools, ThinkingLine])
           | Inr messages \<Rightarrow>
               (let tool_outputs = map content (filter is_tool_message messages)
                in if messages = []
                   then (Inl (IndexError (asc ''list index out of range'')), fs,
                         [ToolsLine tools, ThinkingLine])
                   else
                     (let final_answer = content (last messages)
                      in case save_to_markdown (uni_alnum env) (now_stamp env) (now_date env)
                                question final_answer tool_outputs fs of
                           (Inl e, fs') \<Rightarrow> (Inl e, fs', [ToolsLine tools, ThinkingLine])
                         | (Inr filepath, fs') \<Rightarrow>
                             (Inr (final_answer, filepath), fs', [ToolsLine tools, ThinkingLine])))))"

datatype exit = Returned | SysExit nat

text \<open>
  \<open>main\<close>: \<open>api_key\<close> is \<open>os.getenv("OPENAI_API_KEY")\<close>, \<open>argv\<close> is \<open>sys.argv\<close>.
\<close>

definition main ::
  "client_env \<Rightarrow> pystr option \<Rightarrow> pystr list \<Rightarrow> filesystem \<Rightarrow> event list \<times> filesystem \<times> exit" where
  "main env api_key argv fs =
     (if api_key = None \<or> api_key = Some [] then ([MissingKeyLines], fs, SysExit 1)
      else if length argv < 2 then ([UsageLines], fs, SysExit 1)
      else
        (let question = join (asc '' '') (tl argv)
         in case answer_question env question fs of
              (Inr (answer, filepath), fs', printed) \<Rightarrow>
                (Banner question # printed @ [AnswerLines answer, SavedLine filepath], fs', Returned)
            | (Inl e, fs', printed) \<Rightarrow>
                (Banner question # printed @ [ErrorLine (error_message e), HintLine], fs', Returned)))"

section \<open>simple\_langgraph\_mcp.py: the workflow\<close>

text \<open>
  A tool of the catalogue has a name and can be invoked on arguments (of a type left
  open); the invocation returns text or raises.
\<close>

record 'a tool =
  tool_name :: pystr
  tool_ainvoke :: "'a \<Rightarrow> error + pystr"

text \<open>The response of the model with tools bound: its text and its tool calls.\<close>

record 'a ai_response =
  response_content :: pystr
  tool_calls :: "(pystr \<times> 'a) list"

text \<open>What \<open>create_mcp_agent\<close> returns: the model with the tools bound, and the tools.\<close>

record 'a agent =
  llm_with_tools :: "message list \<Rightarrow> error + 'a ai_response"
  tools :: "'a tool list"

text \<open>
  The collaborators of the workflow: \<open>create_mcp_agent\<close>, called afresh by each node,
  and the plain model that \<open>create_report\<close> builds (its answer is the content of the
  response).
\<close>

record 'a graph_env =
  create_mcp_agent :: "error + 'a agent"
  llm_ainvoke :: "message list \<Rightarrow> error + pystr"

record state =
  messages :: "message list"
  nasa_data :: pystr
  news_data :: pystr
  final_report :: pystr

text \<open>
  Every assignment \<open>state[slot] = value\<close> that a node executes is also appended to a log,
  in order; the log is not in the source and is kept beside the state to count writes.
\<close>

datatype slot = Nasa_data | News_data | Final_report

type_synonym write_log = "(slot \<times> pystr) list"

fun assign :: "slot \<Rightarrow> pystr \<Rightarrow> state \<Rightarrow> state" where
  "assign Nasa_data v st = st\<lparr>nasa_data := v\<rparr>"
| "assign News_data v st = st\<lparr>news_data := v\<rparr>"
| "assign Final_report v st = st\<lparr>final_report := v\<rparr>"

text \<open>
  The inner loop \<open>for tool in tools: if tool.name == tool_name: ...; break\<close>: the first
  tool with the name is invoked; when no tool has the name nothing happens.
\<close>

fun invoke_named :: "'a tool list \<Rightarrow> pystr \<Rightarrow> 'a \<Rightarrow> error + pystr option" where
  "invoke_named [] n args = Inr None"
| "invoke_named (tool # rest) n args =
     (if tool_name tool = n
      then (case tool_ainvoke tool args of
              Inl e \<Rightarrow> Inl e
            | Inr result \<Rightarrow> Inr (Some result))
      else invoke_named rest n args)"

text \<open>The outer loop \<open>for tool_call in response.tool_calls\<close>, writing to the slot of the node.\<close>

fun run_tool_calls ::
  "slot \<Rightarrow> 'a tool list \<Rightarrow> (pystr \<times> 'a) list \<Rightarrow> state \<times> write_log \<Rightarrow> error + state \<times> write_log" where
  "run_tool_calls sl ts [] sw = Inr sw"
| "run_tool_calls sl ts ((n, args) # calls) (st, log) =
     (case invoke_named ts n args of
        Inl e \<Rightarrow> Inl e
      | Inr None \<Rightarrow> run_tool_calls sl ts calls (st, log)
      | Inr (Some result) \<Rightarrow>
          run_tool_calls sl ts calls (assign sl result st, log @ [(sl, result)]))"

definition get_nasa_data ::
  "'a graph_env \<Rightarrow> state \<times> write_log \<Rightarrow> error + state \<times> write_log" where
  "get_nasa_data env sw =
     (case create_mcp_agent env of
        Inl e \<Rightarrow> Inl e
      | Inr ag \<Rightarrow>
          (let msgs = messages (fst sw) @ [HumanMessage (asc ''Get today's astronomy picture of the day'')];
               st1 = (fst sw)\<lparr>messages := msgs\<rparr>
           in case llm_with_tools ag msgs of
                Inl e \<Rightarrow> Inl e
              | Inr response \<Rightarrow> run_tool_calls Nasa_data (tools ag) (tool_calls response) (st1, snd sw)))"

definition get_news_data ::
  "'a graph_env \<Rightarrow> state \<times> write_log \<Rightarrow> error + state \<times> write_log" where
  "get_news_data env sw =
     (case create_mcp_agent env of
        Inl e \<Rightarrow> Inl e
      | Inr ag \<Rightarrow>
          (let msgs = [HumanMessage (asc ''Search for recent news about space and astronomy'')]
           in case llm_with_tools ag msgs of
                Inl e \<Rightarrow> Inl e
              | Inr response \<Rightarrow> run_tool_calls News_data (tools ag) (tool_calls response) sw))"

definition report_prompt :: "state \<Rightarrow> pystr" where
  "report_prompt st =
     nl @ asc ''    Based on the following data, create a brief space update report:'' @ nl
     @ asc ''    '' @ nl
     @ asc ''    NASA Data: '' @ nasa_data st @ nl
     @ asc ''    '' @ nl
     @ asc ''    News Data: '' @ news_data st @ nl
     @ asc ''    '' @ nl
     @ asc ''    Create a concise, engaging summary of today's space highlights.'' @ nl
     @ asc ''    ''"

definition create_report ::
  "'a graph_env \<Rightarrow> state \<times> write_log \<Rightarrow> error + state \<times> write_log" where
  "create_report env sw =
     (case llm_ainvoke env [HumanMessage (report_prompt (fst sw))] of
        Inl e \<Rightarrow> Inl e
      | Inr text \<Rightarrow> Inr (assign Final_report text (fst sw), snd sw @ [(Final_report, text)]))"

text \<open>
  The compiled graph is the chain \<open>get_nasa\<close>, \<open>get_news\<close>, \<open>create_report\<close>: each node
  receives the state its predecessor returned, and an exception leaves the run.
\<close>

definition initial_state :: state where
  "initial_state =
     \<lparr>messages = [HumanMessage (asc ''Get space updates'')],
      nasa_data = [], news_data = [], final_report = []\<rparr>"

definition run_workflow :: "'a graph_env \<Rightarrow> state \<Rightarrow> error + state \<times> write_log" where
  "run_workflow env st =
     (case get_nasa_data env (st, []) of
        Inl e \<Rightarrow> Inl e
      | Inr sw1 \<Rightarrow>
          (case get_news_data env sw1 of
             Inl e \<Rightarrow> Inl e
           | Inr sw2 \<Rightarrow> create_report env sw2))"

section \<open>server.py: the tools that need a provider key\<close>

text \<open>
  The search client is built once from \<open>TAVILY_API_KEY\<close>; its two calls return or raise.
  \<open>search\<close> gives the list under \<open>results\<close> of the response (empty when absent); the
  fields of a result may be missing.
\<close>

record search_result =
  result_title :: "pystr option"
  result_content :: "pystr option"
  result_url :: "pystr option"

record tavily_client =
  search :: "pystr \<Rightarrow> error + search_result list"
  get_search_context :: "pystr \<Rightarrow> error + pystr"

definition get_or :: "pystr option \<Rightarrow> pystr \<Rightarrow> pystr" where
  "get_or v d = (case v of None \<Rightarrow> d | Some x \<Rightarrow> x)"

definition format_result :: "nat \<Rightarrow> search_result \<Rightarrow> pystr" where
  "format_result i r =
     str_nat i @ asc ''. '' @ get_or (result_title r) (asc ''No title'') @ nl
     @ asc ''   '' @ take 200 (get_or (result_content r) (asc ''No description'')) @ asc ''...'' @ nl
     @ asc ''   '' @ [128279] @ asc '' '' @ get_or (result_url r) (asc ''No URL'')"

fun format_results :: "nat \<Rightarrow> search_result list \<Rightarrow> pystr list" where
  "format_results i [] = []"
| "format_results i (r # rs) = format_result i r # format_results (Suc i) rs"

text \<open>
  \<open>web_search\<close>: any exception of the \<open>try\<close> block leads to the fallback
  \<open>client.get_search_context\<close>, which is not guarded.
\<close>

definition web_search :: "tavily_client \<Rightarrow> pystr \<Rightarrow> error + pystr" where
  "web_search client query =
     (case search client query of
        Inl e \<Rightarrow> get_search_context client query
      | Inr results \<Rightarrow>
          (let formatted_results = format_results 1 results
           in if formatted_results \<noteq> []
              then Inr (asc ''Search results for: '' @ query @ nl @ nl
                        @ join (nl @ nl) formatted_results)
              else Inr (asc ''No results found for: '' @ query)))"

text \<open>
  The news tools. \<open>http_get\<close> stands for \<open>requests.get\<close>, \<open>raise_for_status\<close> and
  \<open>response.json()\<close> together: the decoded answer, or a \<open>RequestException\<close>.
\<close>

record article =
  article_title :: pystr
  article_description :: "pystr option"
  article_url :: pystr
  article_publishedAt :: pystr

record news_response =
  status :: pystr
  totalResults :: int
  articles :: "article list"

type_synonym http = "pystr \<Rightarrow> (pystr \<times> pystr) list \<Rightarrow> error + news_response"

definition absent :: "pystr option \<Rightarrow> bool" where
  "absent v \<longleftrightarrow> v = None \<or> v = Some []"

definition missing_news_key :: pystr where
  "missing_news_key =
     asc ''Error: NEWS_API_KEY not found in environment variables. Please add it to your .env file.''"

definition headline_entry :: "article \<Rightarrow> pystr" where
  "headline_entry a =
     [128240] @ asc '' '' @ article_title a @ nl
     @ asc ''   '' @ get_or (article_description a) (asc ''No description'') @ nl
     @ asc ''   '' @ [128279] @ asc '' '' @ article_url a"

definition get_top_headlines ::
  "pystr option \<Rightarrow> http \<Rightarrow> pystr \<Rightarrow> pystr option \<Rightarrow> pystr option \<Rightarrow> error + pystr" where
  "get_top_headlines news_api_key http_get country category query =
     (if absent news_api_key then Inr missing_news_key
      else
        (let params = [(asc ''apiKey'', the news_api_key), (asc ''country'', country),
                       (asc ''pageSize'', asc ''5'')]
                      @ (if absent category then [] else [(asc ''category'', the category)])
                      @ (if absent query then [] else [(asc ''q'', the query)])
         in case http_get (asc ''https://newsapi.org/v2/top-headlines'') params of
              Inl e \<Rightarrow> Inr (asc ''Error fetching news: '' @ error_message e)
            | Inr data \<Rightarrow>
                (if status data = asc ''ok'' \<and> totalResults data > 0
                 then Inr (join (nl @ nl) (map headline_entry (take 5 (articles data))))
                 else Inr (asc ''No news articles found for the specified criteria.''))))"

definition news_entry :: "article \<Rightarrow> pystr" where
  "news_entry a =
     [128240] @ asc '' '' @ article_title a @ nl
     @ asc ''   '' @ [128197] @ asc '' '' @ take 10 (article_publishedAt a) @ nl
     @ asc ''   '' @ get_or (article_description a) (asc ''No description'') @ nl
     @ asc ''   '' @ [128279] @ asc '' '' @ article_url a"

text \<open>
  \<open>search_news\<close>; \<open>week_ago\<close> is the value of
  \<open>(datetime.now() - timedelta(days=7)).strftime("%Y-%m-%d")\<close>.
\<close>

definition search_news ::
  "pystr option \<Rightarrow> http \<Rightarrow> pystr \<Rightarrow> pystr \<Rightarrow> pystr option \<Rightarrow> pystr \<Rightarrow> error + pystr" where
  "search_news news_api_key http_get week_ago query from_date sort_by =
     (if absent news_api_key then Inr missing_news_key
      else
        (let from_date' = (if absent from_date then week_ago else the from_date);
             params = [(asc ''apiKey'', the news_api_key), (asc ''q'', query),
                       (asc ''from'', from_date'), (asc ''sortBy'', sort_by),
                       (asc ''pageSize'', asc ''5''), (asc ''language'', asc ''en'')]
         in case http_get (asc ''https://newsapi.org/v2/everything'') params of
              Inl e \<Rightarrow> Inr (asc ''Error searching news: '' @ error_message e)
            | Inr data \<Rightarrow>
                (if status data = asc ''ok'' \<and> totalResults data > 0
                 then Inr (join (nl @ nl) (map news_entry (take 5 (articles data))))
                 else Inr (asc ''No news articles found for ''
                           @ [39] @ query @ [39] @ asc ''.''))))"

section \<open>Concrete collaborators and inputs\<close>

text \<open>
  A Unicode table with no alphanumeric code point beyond ASCII, used where a concrete
  ASCII question is evaluated.
\<close>

definition ascii_only :: "codepoint \<Rightarrow> bool" where
  "ascii_only c = False"

definition answering_agent :: "pystr \<Rightarrow> error + message list" where
  "answering_agent q = Inr [HumanMessage q, ToolMessage (asc ''4''), AIMessage (asc ''You rolled 4'')]"

definition failing_agent :: "pystr \<Rightarrow> error + message list" where
  "failing_agent q = Inl (PlannerError (asc ''planner unreachable''))"

definition answering_env :: client_env where
  "answering_env =
     \<lparr>uni_alnum = ascii_only, get_tools = Inr [asc ''roll_dice''],
      agent_ainvoke = answering_agent,
      now_stamp = asc ''20250101_120000'', now_date = asc ''2025-01-01 12:00:00''\<rparr>"

definition failing_env :: client_env where
  "failing_env =
     \<lparr>uni_alnum = ascii_only, get_tools = Inr [asc ''roll_dice''],
      agent_ainvoke = failing_agent,
      now_stamp = asc ''20250101_120000'', now_date = asc ''2025-01-01 12:00:00''\<rparr>"

definition fresh_fs :: filesystem where
  "fresh_fs =
     \<lparr>cwd_writable = True, outputs_exists = False, outputs_writable = False,
      outputs_files = Map.empty\<rparr>"

definition readonly_fs :: filesystem where
  "readonly_fs =
     \<lparr>cwd_writable = False, outputs_exists = True, outputs_writable = False,
      outputs_files = Map.empty\<rparr>"

text \<open>
  A catalogue with one tool, which returns its arguments, and planners that answer every
  call with the same tool calls: one to an unknown tool and one to the tool, or two to
  the tool.
\<close>

definition echo :: "pystr \<Rightarrow> error + pystr" where
  "echo args = Inr args"

definition apod_tool :: "pystr tool" where
  "apod_tool = \<lparr>tool_name = asc ''get_astronomy_picture'', tool_ainvoke = echo\<rparr>"

definition mixed_response :: "pystr ai_response" where
  "mixed_response =
     \<lparr>response_content = [],
      tool_calls = [(asc ''no_such_tool'', asc ''x''),
                    (asc ''get_astronomy_picture'', asc ''picture'')]\<rparr>"

definition mixed_planner :: "message list \<Rightarrow> error + pystr ai_response" where
  "mixed_planner msgs = Inr mixed_response"

definition twice_response :: "pystr ai_response" where
  "twice_response =
     \<lparr>response_content = [],
      tool_calls = [(asc ''get_astronomy_picture'', asc ''first''),
                    (asc ''get_astronomy_picture'', asc ''second'')]\<rparr>"

definition twice_planner :: "message list \<Rightarrow> error + pystr ai_response" where
  "twice_planner msgs = Inr twice_response"

definition summary :: "message list \<Rightarrow> error + pystr" where
  "summary msgs = Inr (asc ''report'')"

definition silent_summary :: "message list \<Rightarrow> error + pystr" where
  "silent_summary msgs = Inr []"

definition mixed_agent :: "pystr agent" where
  "mixed_agent = \<lparr>llm_with_tools = mixed_planner, tools = [apod_tool]\<rparr>"

definition twice_agent :: "pystr agent" where
  "twice_agent = \<lparr>llm_with_tools = twice_planner, tools = [apod_tool]\<rparr>"

definition mixed_env :: "pystr graph_env" where
  "mixed_env = \<lparr>create_mcp_agent = Inr mixed_agent, llm_ainvoke = summary\<rparr>"

definition silent_env :: "pystr graph_env" where
  "silent_env = \<lparr>create_mcp_agent = Inr mixed_agent, llm_ainvoke = silent_summary\<rparr>"

definition twice_env :: "pystr graph_env" where
  "twice_env = \<lparr>create_mcp_agent = Inr twice_agent, llm_ainvoke = summary\<rparr>"

definition nasa_request :: message where
  "nasa_request = HumanMessage (asc ''Get today's astronomy picture of the day'')"

definition news_request :: message where
  "news_request = HumanMessage (asc ''Search for recent news about space and astronomy'')"

text \<open>The planner that names the tool first and the unknown tool second.\<close>

definition swapped_response :: "pystr ai_response" where
  "swapped_response =
     \<lparr>response_content = [],
      tool_calls = [(asc ''get_astronomy_picture'', asc ''picture''),
                    (asc ''no_such_tool'', asc ''x'')]\<rparr>"

definition swapped_planner :: "message list \<Rightarrow> error + pystr ai_response" where
  "swapped_planner msgs = Inr swapped_response"

definition swapped_agent :: "pystr agent" where
  "swapped_agent = \<lparr>llm_with_tools = swapped_planner, tools = [apod_tool]\<rparr>"

definition swapped_env :: "pystr graph_env" where
  "swapped_env = \<lparr>create_mcp_agent = Inr swapped_agent, llm_ainvoke = summary\<rparr>"

text \<open>A search client without a key: both of its calls raise.\<close>

definition keyless_search :: "pystr \<Rightarrow> error + search_result list" where
  "keyless_search query = Inl (ToolError (asc ''Unauthorized: missing or invalid API key.''))"

definition keyless_context :: "pystr \<Rightarrow> error + pystr" where
  "keyless_context query = Inl (ToolError (asc ''Unauthorized: missing or invalid API key.''))"

definition keyless_client :: tavily_client where
  "keyless_client = \<lparr>search = keyless_search, get_search_context = keyless_context\<rparr>"

section \<open>Evaluation on concrete inputs\<close>

lemma findall_from_pos:
  "0 < k \<Longrightarrow> findall_from m k (c # cs) = findall_from m (k - 1) cs"
  by (cases k) auto

lemma backtrack_ext_pos:
  "0 < k \<Longrightarrow> backtrack_ext k run =
     (case match_ext (drop k run) of
        Some e \<Rightarrow> Some (take k run @ e)
      | None \<Rightarrow> backtrack_ext (k - 1) run)"
  by (cases k) (auto split: option.splits)

lemmas extract_eval =
  extract_images_from_text_def collect_matches_def nasa_patterns_def findall_def
  labelled_def match_image_url_def match_url_def match_scheme_def match_ext_def asc_def
  is_space_def image_url_label_def hd_image_label_def link_image_label_def
  findall_from_pos backtrack_ext_pos all_images_def Let_def

section \<open>Properties of the extraction\<close>

lemma foldl_append_concat: "foldl (\<lambda>acc x. acc @ f x) a xs = a @ concat (map f xs)"
  by (induction xs arbitrary: a) auto

lemma all_images_concat: "all_images outs = concat (map extract_images_from_text outs)"
  by (simp add: all_images_def foldl_append_concat)

lemma collect_matches_concat:
  "collect_matches t = concat (map (\<lambda>p. findall p t) nasa_patterns)"
  by (simp add: collect_matches_def foldl_append_concat)

lemma unique_loop_set: "set (unique_loop seen acc xs) = set acc \<union> (set xs - seen)"
  by (induction xs arbitrary: seen acc) auto

lemma unique_loop_distinct:
  "distinct acc \<Longrightarrow> set acc \<subseteq> seen \<Longrightarrow> distinct (unique_loop seen acc xs)"
proof (induction xs arbitrary: seen acc)
  case Nil
  then show ?case by simp
next
  case (Cons x xs)
  show ?case
  proof (cases "x \<in> seen")
    case True
    with Cons show ?thesis by simp
  next
    case False
    with Cons.prems have "distinct (acc @ [x])" and "set (acc @ [x]) \<subseteq> insert x seen"
      by auto
    then have "distinct (unique_loop (insert x seen) (acc @ [x]) xs)" by (rule Cons.IH)
    with False show ?thesis by simp
  qed
qed

lemma remdups_snoc_filter: "remdups (zs @ [x]) = remdups (filter (\<lambda>y. y \<noteq> x) zs) @ [x]"
  by (induction zs) auto

lemma first_occurrence_Cons:
  "rev (remdups (rev (x # ys))) = x # rev (remdups (rev (filter (\<lambda>y. y \<noteq> x) ys)))"
proof -
  have "remdups (rev ys @ [x]) = remdups (filter (\<lambda>y. y \<noteq> x) (rev ys)) @ [x]"
    by (rule remdups_snoc_filter)
  then show ?thesis by (simp add: rev_filter)
qed

lemma unique_loop_first_occurrences:
  "unique_loop seen acc xs = acc @ rev (remdups (rev (filter (\<lambda>x. x \<notin> seen) xs)))"
proof (induction xs arbitrary: seen acc)
  case Nil
  show ?case by simp
next
  case (Cons x xs)
  show ?case
  proof (cases "x \<in> seen")
    case True
    then show ?thesis using Cons.IH [of seen acc] by simp
  next
    case False
    have f: "filter (\<lambda>y. y \<noteq> x) (filter (\<lambda>y. y \<notin> seen) xs) = filter (\<lambda>y. y \<notin> insert x seen) xs"
      by (induction xs) auto
    have "unique_loop seen acc (x # xs) = unique_loop (insert x seen) (acc @ [x]) xs"
      using False by simp
    also have "\<dots> = (acc @ [x]) @ rev (remdups (rev (filter (\<lambda>y. y \<notin> insert x seen) xs)))"
      by (rule Cons.IH)
    also have "\<dots> = acc @ rev (remdups (rev (x # filter (\<lambda>y. y \<notin> seen) xs)))"
      by (simp only: first_occurrence_Cons f append_assoc append_Cons append_Nil)
    also have "x # filter (\<lambda>y. y \<notin> seen) xs = filter (\<lambda>y. y \<notin> seen) (x # xs)"
      using False by simp
    finally show ?thesis .
  qed
qed

lemma match_scheme_split: "match_scheme t = Some (s, r) \<Longrightarrow> t = s @ r"
  by (auto simp: match_scheme_def prefix_def asc_def split: if_splits)

lemma match_url_prefix: "match_url t = Some u \<Longrightarrow> prefix u t"
  by (auto simp: match_url_def Let_def prefix_def split: option.splits if_splits
      dest!: match_scheme_split) (metis takeWhile_dropWhile_id)

lemma match_ext_prefix: "match_ext t = Some e \<Longrightarrow> prefix e t"
  by (auto simp: match_ext_def split: if_splits)

lemma backtrack_ext_prefix: "backtrack_ext k run = Some u \<Longrightarrow> prefix u run"
proof (induction k)
  case 0
  then show ?case by simp
next
  case (Suc k)
  show ?case
  proof (cases "match_ext (drop (Suc k) run)")
    case None
    with Suc show ?thesis by simp
  next
    case (Some e)
    with Suc.prems have u: "u = take (Suc k) run @ e" by simp
    from Some have "prefix e (drop (Suc k) run)" by (rule match_ext_prefix)
    then have "prefix (take (Suc k) run @ e) (take (Suc k) run @ drop (Suc k) run)"
      by (simp only: same_prefix_prefix)
    with u show ?thesis by simp
  qed
qed

lemma match_image_url_prefix: "match_image_url t = Some u \<Longrightarrow> prefix u t"
proof -
  assume a: "match_image_url t = Some u"
  then obtain s r v where sr: "match_scheme t = Some (s, r)"
    and v: "backtrack_ext (length (takeWhile (\<lambda>c. \<not> is_space c) r)) (takeWhile (\<lambda>c. \<not> is_space c) r) = Some v"
    and u: "u = s @ v"
    by (auto simp: match_image_url_def Let_def split: option.splits)
  from v have "prefix v (takeWhile (\<lambda>c. \<not> is_space c) r)" by (rule backtrack_ext_prefix)
  moreover have "prefix (takeWhile (\<lambda>c. \<not> is_space c) r) r"
    by (metis prefixI takeWhile_dropWhile_id)
  ultimately have "prefix v r" by (rule prefix_order.trans)
  with u match_scheme_split [OF sr] show ?thesis by simp
qed

lemma labelled_sublist:
  assumes m: "\<And>t u. m t = Some u \<Longrightarrow> prefix u t"
    and l: "labelled lab m t = Some (g, n)"
  shows "sublist g t"
proof -
  from l have "m (drop (length lab) t) = Some g"
    by (auto simp: labelled_def split: if_splits option.splits)
  then have "prefix g (drop (length lab) t)" by (rule m)
  then obtain zs where "drop (length lab) t = g @ zs" by (auto simp: prefix_def)
  then have "t = take (length lab) t @ g @ zs" by (metis append_take_drop_id)
  then show ?thesis unfolding sublist_def by blast
qed

lemma findall_from_sublist:
  assumes m: "\<And>t g n. m t = Some (g, n) \<Longrightarrow> sublist g t"
  shows "g \<in> set (findall_from m k t) \<Longrightarrow> sublist g t"
proof (induction t arbitrary: k)
  case Nil
  then show ?case by simp
next
  case (Cons c cs)
  show ?case
  proof (cases k)
    case (Suc j)
    with Cons.prems have "g \<in> set (findall_from m j cs)" by simp
    then have "sublist g cs" by (rule Cons.IH)
    then show ?thesis by (simp add: sublist_Cons_right)
  next
    case 0
    show ?thesis
    proof (cases "m (c # cs)")
      case None
      with 0 Cons.prems have "g \<in> set (findall_from m 0 cs)" by simp
      then have "sublist g cs" by (rule Cons.IH)
      then show ?thesis by (simp add: sublist_Cons_right)
    next
      case (Some a)
      obtain g' n where a: "a = (g', n)" by (cases a)
      from Cons.prems 0 Some a have "g = g' \<or> g \<in> set (findall_from m (n - 1) cs)" by simp
      then show ?thesis
      proof
        assume "g = g'"
        moreover from Some a have "sublist g' (c # cs)" by (simp add: m)
        ultimately show ?thesis by simp
      next
        assume "g \<in> set (findall_from m (n - 1) cs)"
        then have "sublist g cs" by (rule Cons.IH)
        then show ?thesis by (simp add: sublist_Cons_right)
      qed
    qed
  qed
qed

lemma nasa_patterns_sublist:
  "p \<in> set nasa_patterns \<Longrightarrow> p t = Some (g, n) \<Longrightarrow> sublist g t"
  by (auto simp: nasa_patterns_def
      intro: labelled_sublist [where m = match_url, OF match_url_prefix]
             labelled_sublist [where m = match_image_url, OF match_image_url_prefix])

lemma extract_set:
  "set (extract_images_from_text t) = (\<Union>p \<in> set nasa_patterns. set (findall p t))"
  by (simp add: extract_images_from_text_def unique_loop_set collect_matches_concat)

lemma extract_sublist: "u \<in> set (extract_images_from_text t) \<Longrightarrow> sublist u t"
  unfolding extract_set findall_def
  by (auto intro: findall_from_sublist [OF nasa_patterns_sublist])

lemma all_images_sublist: "u \<in> set (all_images outs) \<Longrightarrow> \<exists>t \<in> set outs. sublist u t"
  by (auto simp: all_images_concat dest: extract_sublist)

lemma count_list_concat:
  "count_list (concat xss) u = sum_list (map (\<lambda>xs. count_list xs u) xss)"
  by (induction xss) auto

lemma count_list_distinct:
  "distinct xs \<Longrightarrow> count_list xs u = (if u \<in> set xs then 1 else 0)"
  by (induction xs) auto

lemma extract_distinct: "distinct (extract_images_from_text t)"
  by (simp add: extract_images_from_text_def unique_loop_distinct)

lemma count_all_images:
  "count_list (all_images outs) u =
     length (filter (\<lambda>output. u \<in> set (extract_images_from_text output)) outs)"
  by (induction outs)
     (simp_all add: all_images_concat count_list_distinct [OF extract_distinct])

lemma extract_first_occurrences:
  "extract_images_from_text t =
     rev (remdups (rev
       (findall (labelled image_url_label match_url) t
        @ findall (labelled hd_image_label match_url) t
        @ findall (labelled link_image_label match_image_url) t
        @ findall (labelled [] match_image_url) t)))"
  by (simp add: extract_images_from_text_def unique_loop_first_occurrences
      collect_matches_concat nasa_patterns_def del: remdups.simps)

lemma extract_set_patterns:
  "set (extract_images_from_text t) =
     set (findall (labelled image_url_label match_url) t)
     \<union> set (findall (labelled hd_image_label match_url) t)
     \<union> set (findall (labelled link_image_label match_image_url) t)
     \<union> set (findall (labelled [] match_image_url) t)"
  by (auto simp: extract_set nasa_patterns_def)

lemma count_all_images_patterns:
  "count_list (all_images outs) u =
     length (filter (\<lambda>output.
        u \<in> set (findall (labelled image_url_label match_url) output)
            \<union> set (findall (labelled hd_image_label match_url) output)
            \<union> set (findall (labelled link_image_label match_image_url) output)
            \<union> set (findall (labelled [] match_image_url) output)) outs)"
  by (simp only: count_all_images extract_set_patterns)

text \<open>
  C1, as the code has it. The set of seen URLs lives inside
  \<open>extract_images_from_text\<close>, so it is per tool output. Within one output the
  result is the list of the matches of the four patterns with every URL kept at its first
  occurrence only: every URL that a pattern matches is returned, exactly once.
  \<open>save_to_markdown\<close> concatenates the lists of the outputs as they are, so a URL is
  listed once for each output in which a pattern matches it.
\<close>

theorem dedup_is_per_output:
  "extract_images_from_text output =
     rev (remdups (rev
       (findall (labelled image_url_label match_url) output
        @ findall (labelled hd_image_label match_url) output
        @ findall (labelled link_image_label match_image_url) output
        @ findall (labelled [] match_image_url) output))) \<and>
   set (extract_images_from_text output) =
     set (findall (labelled image_url_label match_url) output)
     \<union> set (findall (labelled hd_image_label match_url) output)
     \<union> set (findall (labelled link_image_label match_image_url) output)
     \<union> set (findall (labelled [] match_image_url) output) \<and>
   distinct (extract_images_from_text output) \<and>
   all_images tool_outputs = concat (map extract_images_from_text tool_outputs) \<and>
   count_list (all_images tool_outputs) u =
     length (filter (\<lambda>output. u \<in> set (extract_images_from_text output)) tool_outputs) \<and>
   count_list (all_images tool_outputs) u =
     length (filter (\<lambda>output.
        u \<in> set (findall (labelled image_url_label match_url) output)
            \<union> set (findall (labelled hd_image_label match_url) output)
            \<union> set (findall (labelled link_image_label match_image_url) output)
            \<union> set (findall (labelled [] match_image_url) output)) tool_outputs)"
proof (intro conjI)
  show "extract_images_from_text output =
     rev (remdups (rev
       (findall (labelled image_url_label match_url) output
        @ findall (labelled hd_image_label match_url) output
        @ findall (labelled link_image_label match_image_url) output
        @ findall (labelled [] match_image_url) output)))"
    by (rule extract_first_occurrences)
  show "set (extract_images_from_text output) =
     set (findall (labelled image_url_label match_url) output)
     \<union> set (findall (labelled hd_image_label match_url) output)
     \<union> set (findall (labelled link_image_label match_image_url) output)
     \<union> set (findall (labelled [] match_image_url) output)"
    by (rule extract_set_patterns)
  show "distinct (extract_images_from_text output)" by (rule extract_distinct)
  show "all_images tool_outputs = concat (map extract_images_from_text tool_outputs)"
    by (rule all_images_concat)
  show "count_list (all_images tool_outputs) u =
     length (filter (\<lambda>output. u \<in> set (extract_images_from_text output)) tool_outputs)"
    by (rule count_all_images)
  show "count_list (all_images tool_outputs) u =
     length (filter (\<lambda>output.
        u \<in> set (findall (labelled image_url_label match_url) output)
            \<union> set (findall (labelled hd_image_label match_url) output)
            \<union> set (findall (labelled link_image_label match_image_url) output)
            \<union> set (findall (labelled [] match_image_url) output)) tool_outputs)"
    by (rule count_all_images_patterns)
qed

text \<open>
  C1, as stated, fails: the same labelled URL in two tool outputs is listed twice, not
  once.
\<close>

theorem dedup_across_outputs_counterexample:
  "all_images
     [[128444, 65039] @ asc '' Image URL: https://apod.nasa.gov/x.jpg'',
      [128444, 65039] @ asc '' Image URL: https://apod.nasa.gov/x.jpg'']
   = [asc ''https://apod.nasa.gov/x.jpg'', asc ''https://apod.nasa.gov/x.jpg'']"
  by (simp add: extract_eval)

text \<open>
  C6. Every URL that the extraction returns for a list of tool outputs occurs in one of
  the outputs as a contiguous substring.
\<close>

theorem extracted_url_verbatim:
  "u \<in> set (all_images tool_outputs) \<Longrightarrow> \<exists>output \<in> set tool_outputs. sublist u output"
  by (rule all_images_sublist)

theorem extracted_url_verbatim_witness:
  "asc ''http://a.b/x.jpg'' \<in> set (all_images [asc ''see http://a.b/x.jpg now''])
   \<and> (\<exists>output \<in> set [asc ''see http://a.b/x.jpg now'']. sublist (asc ''http://a.b/x.jpg'') output)"
proof -
  have h: "asc ''http://a.b/x.jpg'' \<in> set (all_images [asc ''see http://a.b/x.jpg now''])"
    by (simp add: extract_eval)
  from h extracted_url_verbatim [OF h] show ?thesis by (rule conjI)
qed

text \<open>
  C10. Within one tool output the candidates are all matches of the first pattern, then
  all matches of the second, the third and the fourth, each group in text order; the
  result keeps the first occurrence of each URL in that list. So the order is by
  pattern, not by position: a bare image URL placed before a labelled one comes after it.
\<close>

theorem extraction_grouped_by_pattern:
  "extract_images_from_text t =
     rev (remdups (rev
       (findall (labelled image_url_label match_url) t
        @ findall (labelled hd_image_label match_url) t
        @ findall (labelled link_image_label match_image_url) t
        @ findall (labelled [] match_image_url) t)))
   \<and> extract_images_from_text
        (asc ''https://x.org/a.png '' @ [128444, 65039] @ asc '' Image URL: https://x.org/b'')
      = [asc ''https://x.org/b'', asc ''https://x.org/a.png'']"
proof
  show "extract_images_from_text t =
     rev (remdups (rev
       (findall (labelled image_url_label match_url) t
        @ findall (labelled hd_image_label match_url) t
        @ findall (labelled link_image_label match_image_url) t
        @ findall (labelled [] match_image_url) t)))"
    by (simp add: extract_images_from_text_def unique_loop_first_occurrences
        collect_matches_concat nasa_patterns_def del: remdups.simps)
  show "extract_images_from_text
        (asc ''https://x.org/a.png '' @ [128444, 65039] @ asc '' Image URL: https://x.org/b'')
      = [asc ''https://x.org/b'', asc ''https://x.org/a.png'']"
    by (simp add: extract_eval)
qed

section \<open>Properties of the report\<close>

lemma truncated_short: "length output \<le> 2000 \<Longrightarrow> truncated_output output = output"
  by (simp add: truncated_output_def)

lemma truncated_long:
  "2000 < length output \<Longrightarrow> truncated_output output = take 2000 output @ nl @ asc ''... (truncated)''"
  by (simp add: truncated_output_def truncation_marker_def)

lemma entry_in_entries:
  "output \<in> set outs \<Longrightarrow> \<exists>i. sublist (tool_output_entry i output) (tool_output_entries k outs)"
proof (induction outs arbitrary: k)
  case Nil
  then show ?case by simp
next
  case (Cons a outs)
  show ?case
  proof (cases "output = a")
    case True
    have "sublist (tool_output_entry k a) (tool_output_entry k a @ tool_output_entries (Suc k) outs)"
      by (rule sublist_append_rightI)
    with True show ?thesis by auto
  next
    case False
    with Cons.prems have "output \<in> set outs" by simp
    then obtain i where "sublist (tool_output_entry i output) (tool_output_entries (Suc k) outs)"
      using Cons.IH by blast
    then have "sublist (tool_output_entry i output) (tool_output_entry k a @ tool_output_entries (Suc k) outs)"
      by (simp add: sublist_append)
    then show ?thesis by auto
  qed
qed

lemma fenced_in_entry:
  "sublist (fence @ nl @ truncated_output output @ nl @ fence @ nl @ nl) (tool_output_entry i output)"
proof -
  have "tool_output_entry i output =
      (asc ''### Tool Output '' @ str_nat i @ nl @ nl)
      @ (fence @ nl @ truncated_output output @ nl @ fence @ nl @ nl)"
    by (simp add: tool_output_entry_def)
  then show ?thesis by (simp only: sublist_append_leftI)
qed

lemma entries_in_md_content:
  "tool_outputs \<noteq> [] \<Longrightarrow>
     sublist (tool_output_entries 1 tool_outputs) (md_content date question answer tool_outputs)"
proof -
  assume ne: "tool_outputs \<noteq> []"
  obtain ps ss where "md_content date question answer tool_outputs
      = ps @ tool_output_entries 1 tool_outputs @ ss"
  proof
    show "md_content date question answer tool_outputs =
      (asc ''# MCP Query Result'' @ nl @ nl
       @ asc ''**Date:** '' @ date @ nl @ nl
       @ asc ''## Question'' @ nl @ nl @ question @ nl @ nl
       @ asc ''## Answer'' @ nl @ nl @ answer @ nl @ nl
       @ (if all_images tool_outputs \<noteq> []
          then asc ''## Images'' @ nl @ nl @ image_entries 1 (all_images tool_outputs)
          else [])
       @ asc ''## Tool Outputs'' @ nl @ nl
       @ asc ''<details>'' @ nl
       @ asc ''<summary>Click to expand raw tool outputs</summary>'' @ nl @ nl)
      @ tool_output_entries 1 tool_outputs
      @ (asc ''</details>'' @ nl)"
      using ne by (simp add: md_content_def)
  qed
  then show ?thesis by (simp only: sublist_appendI)
qed

lemma fenced_in_md_content:
  assumes "output \<in> set tool_outputs"
  shows "sublist (fence @ nl @ truncated_output output @ nl @ fence @ nl @ nl)
           (md_content date question answer tool_outputs)"
proof -
  from assms have ne: "tool_outputs \<noteq> []" by auto
  from assms obtain i where "sublist (tool_output_entry i output) (tool_output_entries 1 tool_outputs)"
    using entry_in_entries by blast
  with fenced_in_entry
  have "sublist (fence @ nl @ truncated_output output @ nl @ fence @ nl @ nl)
          (tool_output_entries 1 tool_outputs)"
    by (rule sublist_order.order.trans)
  then show ?thesis using entries_in_md_content [OF ne] by (rule sublist_order.order.trans)
qed

lemma save_writes_report:
  assumes "if outputs_exists fs then outputs_writable fs else cwd_writable fs"
  shows "\<exists>fs'. save_to_markdown uni timestamp date question answer tool_outputs fs
           = (Inr (asc ''outputs/'' @ filename uni timestamp question), fs') \<and>
         outputs_files fs' (filename uni timestamp question)
           = Some (md_content date question answer tool_outputs)"
  using assms
  by (auto simp: save_to_markdown_def mkdir_outputs_def write_text_def Let_def split: if_splits)

text \<open>
  C7. A tool output of at most 2000 code points is written between the fences
  unchanged; a longer one as its first 2000 code points followed by the marker
  (a newline and \<open>... (truncated)\<close>); the fenced block of every tool output is part
  of the content of the report; and where the directory can be written,
  \<open>save_to_markdown\<close> returns the path and the file of that name holds exactly this
  content.
\<close>

theorem truncation_of_tool_outputs:
  "(length short \<le> 2000 \<longrightarrow> truncated_output short = short) \<and>
   (2000 < length long \<longrightarrow>
      truncated_output long = take 2000 long @ nl @ asc ''... (truncated)'') \<and>
   (output \<in> set tool_outputs \<longrightarrow>
      sublist (fence @ nl @ truncated_output output @ nl @ fence @ nl @ nl)
        (md_content date question answer tool_outputs)) \<and>
   ((if outputs_exists fs then outputs_writable fs else cwd_writable fs) \<longrightarrow>
      (\<exists>fs'. save_to_markdown uni timestamp date question answer tool_outputs fs
                = (Inr (asc ''outputs/'' @ filename uni timestamp question), fs') \<and>
             outputs_files fs' (filename uni timestamp question)
                = Some (md_content date question answer tool_outputs)))"
proof (intro conjI impI)
  assume "length short \<le> 2000"
  then show "truncated_output short = short" by (rule truncated_short)
next
  assume "2000 < length long"
  then show "truncated_output long = take 2000 long @ nl @ asc ''... (truncated)''"
    by (rule truncated_long)
next
  assume "output \<in> set tool_outputs"
  then show "sublist (fence @ nl @ truncated_output output @ nl @ fence @ nl @ nl)
        (md_content date question answer tool_outputs)"
    by (rule fenced_in_md_content)
next
  assume "if outputs_exists fs then outputs_writable fs else cwd_writable fs"
  then show "\<exists>fs'. save_to_markdown uni timestamp date question answer tool_outputs fs
                = (Inr (asc ''outputs/'' @ filename uni timestamp question), fs') \<and>
             outputs_files fs' (filename uni timestamp question)
                = Some (md_content date question answer tool_outputs)"
    by (rule save_writes_report)
qed

theorem truncation_of_tool_outputs_witness:
  "length (asc ''ok'') \<le> 2000 \<and> truncated_output (asc ''ok'') = asc ''ok'' \<and>
   2000 < length (replicate 2001 (97::nat)) \<and>
   truncated_output (replicate 2001 97) = replicate 2000 97 @ nl @ asc ''... (truncated)'' \<and>
   asc ''ok'' \<in> set [asc ''ok''] \<and>
   sublist (fence @ nl @ truncated_output (asc ''ok'') @ nl @ fence @ nl @ nl)
     (md_content (asc ''2025-01-01 12:00:00'') (asc ''q'') (asc ''a'') [asc ''ok'']) \<and>
   (if outputs_exists fresh_fs then outputs_writable fresh_fs else cwd_writable fresh_fs) \<and>
   (\<exists>fs'. save_to_markdown ascii_only (asc ''20250101_120000'') (asc ''2025-01-01 12:00:00'')
            (asc ''q'') (asc ''a'') [asc ''ok''] fresh_fs
          = (Inr (asc ''outputs/'' @ filename ascii_only (asc ''20250101_120000'') (asc ''q'')), fs') \<and>
        outputs_files fs' (filename ascii_only (asc ''20250101_120000'') (asc ''q''))
          = Some (md_content (asc ''2025-01-01 12:00:00'') (asc ''q'') (asc ''a'') [asc ''ok'']))"
proof -
  have a: "length (asc ''ok'') \<le> 2000" by (simp add: asc_def)
  have b: "2000 < length (replicate 2001 (97::nat))" by simp
  have c: "asc ''ok'' \<in> set [asc ''ok'']" by simp
  have d: "if outputs_exists fresh_fs then outputs_writable fresh_fs else cwd_writable fresh_fs"
    by (simp add: fresh_fs_def)
  have r: "take 2000 (replicate 2001 (97::nat)) = replicate 2000 97" by simp
  note t = truncation_of_tool_outputs [of "asc ''ok''" "replicate 2001 97" "asc ''ok''"
      "[asc ''ok'']" "asc ''2025-01-01 12:00:00''" "asc ''q''" "asc ''a''"
      fresh_fs ascii_only "asc ''20250101_120000''"]
  have 1: "truncated_output (asc ''ok'') = asc ''ok''"
    by (rule t [THEN conjunct1, THEN mp, OF a])
  have "truncated_output (replicate 2001 97)
      = take 2000 (replicate 2001 97) @ nl @ asc ''... (truncated)''"
    by (rule t [THEN conjunct2, THEN conjunct1, THEN mp, OF b])
  then have 2: "truncated_output (replicate 2001 97) = replicate 2000 97 @ nl @ asc ''... (truncated)''"
    unfolding r .
  have 3: "sublist (fence @ nl @ truncated_output (asc ''ok'') @ nl @ fence @ nl @ nl)
     (md_content (asc ''2025-01-01 12:00:00'') (asc ''q'') (asc ''a'') [asc ''ok''])"
    by (rule t [THEN conjunct2, THEN conjunct2, THEN conjunct1, THEN mp, OF c])
  have 4: "\<exists>fs'. save_to_markdown ascii_only (asc ''20250101_120000'') (asc ''2025-01-01 12:00:00'')
            (asc ''q'') (asc ''a'') [asc ''ok''] fresh_fs
          = (Inr (asc ''outputs/'' @ filename ascii_only (asc ''20250101_120000'') (asc ''q'')), fs') \<and>
        outputs_files fs' (filename ascii_only (asc ''20250101_120000'') (asc ''q''))
          = Some (md_content (asc ''2025-01-01 12:00:00'') (asc ''q'') (asc ''a'') [asc ''ok''])"
    by (rule t [THEN conjunct2, THEN conjunct2, THEN conjunct2, THEN mp, OF d])
  show ?thesis
    by (intro conjI) (rule a 1 b 2 c 3 d 4)+
qed

lemma strip_length: "length (strip s) \<le> length s"
proof -
  have "length (strip s) \<le> length (dropWhile is_space s)"
    unfolding strip_def by (simp add: length_dropWhile_le order_trans [OF length_dropWhile_le])
  also have "\<dots> \<le> length s" by (rule length_dropWhile_le)
  finally show ?thesis .
qed

lemma strip_set: "set (strip s) \<subseteq> set s"
proof -
  have "set (strip s) \<subseteq> set (dropWhile is_space s)"
    unfolding strip_def using set_dropWhileD by fastforce
  also have "\<dots> \<subseteq> set s" using set_dropWhileD by fastforce
  finally show ?thesis .
qed

lemma strip_id:
  assumes "s = [] \<or> (\<not> is_space (hd s) \<and> \<not> is_space (last s))"
  shows "strip s = s"
proof -
  from assms have "dropWhile is_space s = s"
    by (auto simp: dropWhile_eq_self_iff)
  moreover from assms have "dropWhile is_space (rev s) = rev s"
    by (auto simp: dropWhile_eq_self_iff hd_rev)
  ultimately show ?thesis by (simp add: strip_def)
qed

lemma safe_question_length: "length (safe_question uni q) \<le> 50"
proof -
  have "length (safe_question uni q) = length (strip (take 50 (filter (keep_char uni) q)))"
    by (simp add: safe_question_def)
  also have "\<dots> \<le> length (take 50 (filter (keep_char uni) q))" by (rule strip_length)
  also have "\<dots> \<le> 50" by simp
  finally show ?thesis .
qed

lemma safe_question_chars:
  assumes "c \<in> set (safe_question uni q)"
  shows "c \<noteq> 32 \<and> (c = 95 \<or> (c \<in> set q \<and> keep_char uni c))"
proof -
  from assms obtain d where d: "d \<in> set (strip (take 50 (filter (keep_char uni) q)))"
    and c: "c = replace_space d"
    by (auto simp: safe_question_def)
  from d strip_set have "d \<in> set (take 50 (filter (keep_char uni) q))" by blast
  then have "d \<in> set (filter (keep_char uni) q)" by (rule in_set_takeD)
  then have "d \<in> set q" "keep_char uni d" by auto
  with c show ?thesis by (auto simp: replace_space_def)
qed

lemma safe_question_clean:
  assumes k: "\<forall>c \<in> set q. keep_char uni c" and l: "length q \<le> 50"
    and e: "q = [] \<or> (\<not> is_space (hd q) \<and> \<not> is_space (last q))"
  shows "safe_question uni q = map replace_space q"
proof -
  from k have "filter (keep_char uni) q = q" by (simp add: filter_id_conv)
  moreover from l have "take 50 q = q" by simp
  ultimately show ?thesis using strip_id [OF e] by (simp add: safe_question_def)
qed

lemma strip_decomposition:
  "\<exists>pre post. s = pre @ strip s @ post \<and>
     (\<forall>c \<in> set pre. is_space c) \<and> (\<forall>c \<in> set post. is_space c) \<and>
     (strip s = [] \<or> (\<not> is_space (hd (strip s)) \<and> \<not> is_space (last (strip s))))"
proof -
  define d where "d = dropWhile is_space s"
  define e where "e = dropWhile is_space (rev d)"
  define pre where "pre = takeWhile is_space s"
  define post where "post = rev (takeWhile is_space (rev d))"
  have core: "strip s = rev e" by (simp add: strip_def d_def e_def)
  have s: "s = pre @ d" by (simp add: pre_def d_def)
  have "rev d = takeWhile is_space (rev d) @ e" by (simp add: e_def)
  then have "rev (rev d) = rev (takeWhile is_space (rev d) @ e)" by (rule arg_cong)
  then have d: "d = rev e @ post" by (simp add: post_def)
  have p1: "\<forall>c \<in> set pre. is_space c"
    unfolding pre_def by (auto dest: set_takeWhileD)
  have p2: "\<forall>c \<in> set post. is_space c"
    unfolding post_def by (auto dest: set_takeWhileD)
  have ends: "rev e = [] \<or> (\<not> is_space (hd (rev e)) \<and> \<not> is_space (last (rev e)))"
  proof (cases "e = []")
    case True
    then show ?thesis by simp
  next
    case False
    then have l: "\<not> is_space (hd e)" unfolding e_def by (rule hd_dropWhile)
    from False have "rev e \<noteq> []" by simp
    with d have dn: "d \<noteq> []" and hd: "hd d = hd (rev e)" by auto
    from dn have "\<not> is_space (hd d)" unfolding d_def by (rule hd_dropWhile)
    with hd l False show ?thesis by (simp add: last_rev)
  qed
  have "pre @ d = pre @ rev e @ post" using d by simp
  then have "s = pre @ rev e @ post" using s by simp
  then have "s = pre @ strip s @ post" unfolding core .
  moreover have "strip s = [] \<or> (\<not> is_space (hd (strip s)) \<and> \<not> is_space (last (strip s)))"
    unfolding core by (rule ends)
  ultimately show ?thesis using p1 p2 by blast
qed

lemma safe_question_algorithm:
  "\<exists>pre core post.
      take 50 (filter (\<lambda>c. is_word uni c \<or> is_space c \<or> c = 45) question) = pre @ core @ post \<and>
      (\<forall>c \<in> set pre. is_space c) \<and> (\<forall>c \<in> set post. is_space c) \<and>
      (core = [] \<or> (\<not> is_space (hd core) \<and> \<not> is_space (last core))) \<and>
      safe_question uni question = map (\<lambda>c. if c = 32 then 95 else c) core"
proof -
  let ?kept = "take 50 (filter (\<lambda>c. is_word uni c \<or> is_space c \<or> c = 45) question)"
  have "keep_char uni = (\<lambda>c. is_word uni c \<or> is_space c \<or> c = 45)"
    by (rule ext) (simp add: keep_char_def)
  then have k: "filter (keep_char uni) question
      = filter (\<lambda>c. is_word uni c \<or> is_space c \<or> c = 45) question"
    by (rule arg_cong)
  have r: "replace_space = (\<lambda>c. if c = 32 then 95 else c)"
    by (rule ext) (simp add: replace_space_def)
  have sq: "safe_question uni question = map (\<lambda>c. if c = 32 then 95 else c) (strip ?kept)"
    by (simp only: safe_question_def k r)
  from strip_decomposition [of ?kept] obtain pre post where
    "?kept = pre @ strip ?kept @ post"
    "\<forall>c \<in> set pre. is_space c" "\<forall>c \<in> set post. is_space c"
    "strip ?kept = [] \<or> (\<not> is_space (hd (strip ?kept)) \<and> \<not> is_space (last (strip ?kept)))"
    by blast
  with sq show ?thesis by blast
qed

lemmas slug_eval = filename_def safe_question_def keep_char_def is_word_def is_space_def
  strip_def replace_space_def asc_def ascii_only_def

lemma whats_up: "filename uni timestamp (asc ''What's up?'') = timestamp @ asc ''_Whats_up.md''"
  by (simp add: filename_def safe_question_def keep_char_def is_word_def is_space_def
      strip_def replace_space_def asc_def)


text \<open>
  C8, as the code has it. The file name is the timestamp, an underscore, the slug and
  \<open>.md\<close>. For the slug, the code points of the question that are word characters,
  whitespace or hyphens are kept, the first 50 of them are taken, the whitespace at both
  ends of these is removed, and in what remains every space (U+0020) is replaced by an
  underscore and nothing else is changed. So the slug has at most 50 code points and no
  space, and a question of at most 50 kept code points without whitespace at its ends
  is kept as it is, spaces replaced.
\<close>

theorem filename_shape:
  "filename uni timestamp question
     = timestamp @ asc ''_'' @ safe_question uni question @ asc ''.md'' \<and>
   length (safe_question uni question) \<le> 50 \<and>
   (\<forall>c \<in> set (safe_question uni question).
      c \<noteq> 32 \<and> (c = 95 \<or> (c \<in> set question \<and> keep_char uni c))) \<and>
   ((\<forall>c \<in> set question. keep_char uni c) \<and> length question \<le> 50 \<and>
    (question = [] \<or> (\<not> is_space (hd question) \<and> \<not> is_space (last question)))
      \<longrightarrow> safe_question uni question = map replace_space question) \<and>
   filename uni timestamp (asc ''What's up?'') = timestamp @ asc ''_Whats_up.md'' \<and>
   (\<exists>pre core post.
      take 50 (filter (\<lambda>c. is_word uni c \<or> is_space c \<or> c = 45) question) = pre @ core @ post \<and>
      (\<forall>c \<in> set pre. is_space c) \<and> (\<forall>c \<in> set post. is_space c) \<and>
      (core = [] \<or> (\<not> is_space (hd core) \<and> \<not> is_space (last core))) \<and>
      safe_question uni question = map (\<lambda>c. if c = 32 then 95 else c) core)"
proof (intro conjI ballI impI)
  show "filename uni timestamp question
     = timestamp @ asc ''_'' @ safe_question uni question @ asc ''.md''"
    by (simp only: filename_def)
  show "length (safe_question uni question) \<le> 50" by (rule safe_question_length)
  show "filename uni timestamp (asc ''What's up?'') = timestamp @ asc ''_Whats_up.md''"
    by (rule whats_up)
  show "\<exists>pre core post.
      take 50 (filter (\<lambda>c. is_word uni c \<or> is_space c \<or> c = 45) question) = pre @ core @ post \<and>
      (\<forall>c \<in> set pre. is_space c) \<and> (\<forall>c \<in> set post. is_space c) \<and>
      (core = [] \<or> (\<not> is_space (hd core) \<and> \<not> is_space (last core))) \<and>
      safe_question uni question = map (\<lambda>c. if c = 32 then 95 else c) core"
    by (rule safe_question_algorithm)
next
  fix c assume c: "c \<in> set (safe_question uni question)"
  from safe_question_chars [OF c] show "c \<noteq> 32" by (rule conjunct1)
  from safe_question_chars [OF c] show "c = 95 \<or> (c \<in> set question \<and> keep_char uni c)"
    by (rule conjunct2)
next
  assume "(\<forall>c \<in> set question. keep_char uni c) \<and> length question \<le> 50 \<and>
    (question = [] \<or> (\<not> is_space (hd question) \<and> \<not> is_space (last question)))"
  then show "safe_question uni question = map replace_space question"
    by (blast intro: safe_question_clean)
qed

theorem filename_shape_witness:
  "87 \<in> set (safe_question ascii_only (asc ''Whats up'')) \<and>
   list_all (keep_char ascii_only) (asc ''Whats up'') \<and>
   length (asc ''Whats up'') \<le> 50 \<and>
   \<not> is_space (hd (asc ''Whats up'')) \<and> \<not> is_space (last (asc ''Whats up'')) \<and>
   safe_question ascii_only (asc ''Whats up'') = map replace_space (asc ''Whats up'') \<and>
   keep_char ascii_only 87 \<and>
   filename ascii_only (asc ''20250101_120000'') (asc ''Whats up'')
     = asc ''20250101_120000_Whats_up.md'' \<and>
   (\<exists>pre core post.
      take 50 (filter (\<lambda>c. is_word ascii_only c \<or> is_space c \<or> c = 45) (asc '' a ''))
        = pre @ core @ post \<and>
      (\<forall>c \<in> set pre. is_space c) \<and> (\<forall>c \<in> set post. is_space c) \<and>
      (core = [] \<or> (\<not> is_space (hd core) \<and> \<not> is_space (last core))) \<and>
      safe_question ascii_only (asc '' a '') = map (\<lambda>c. if c = 32 then 95 else c) core)"
proof -
  note t = filename_shape [of ascii_only "asc ''20250101_120000''" "asc ''Whats up''"]
  have k: "list_all (keep_char ascii_only) (asc ''Whats up'')"
    by (simp add: keep_char_def is_word_def is_space_def asc_def)
  then have k': "\<forall>c \<in> set (asc ''Whats up''). keep_char ascii_only c"
    by (simp only: list_all_iff)
  have l: "length (asc ''Whats up'') \<le> 50" by (simp add: asc_def)
  have e1: "\<not> is_space (hd (asc ''Whats up''))"
    by (simp add: is_space_def asc_def)
  have e2: "\<not> is_space (last (asc ''Whats up''))"
    by (simp add: is_space_def asc_def)
  note tC = t [THEN conjunct2, THEN conjunct2, THEN conjunct1]
  note tD = t [THEN conjunct2, THEN conjunct2, THEN conjunct2, THEN conjunct1]
  have pre: "(\<forall>c \<in> set (asc ''Whats up''). keep_char ascii_only c) \<and>
      length (asc ''Whats up'') \<le> 50 \<and>
      (asc ''Whats up'' = [] \<or>
       (\<not> is_space (hd (asc ''Whats up'')) \<and> \<not> is_space (last (asc ''Whats up''))))"
    by (intro conjI disjI2) (rule k' l e1 e2)+
  have q: "safe_question ascii_only (asc ''Whats up'') = map replace_space (asc ''Whats up'')"
    by (rule tD [THEN mp, OF pre])
  have r: "map replace_space (asc ''Whats up'') = asc ''Whats_up''"
    by (simp add: asc_def replace_space_def)
  have m: "87 \<in> set (safe_question ascii_only (asc ''Whats up''))"
    unfolding q r by (simp add: asc_def)
  have "87 \<noteq> (32::nat) \<and> (87 = (95::nat) \<or>
      (87 \<in> set (asc ''Whats up'') \<and> keep_char ascii_only 87))"
    by (rule bspec [OF tC m])
  then have w: "keep_char ascii_only 87" by simp
  from t have "filename ascii_only (asc ''20250101_120000'') (asc ''Whats up'')
     = asc ''20250101_120000'' @ asc ''_'' @ safe_question ascii_only (asc ''Whats up'') @ asc ''.md''"
    by (rule conjunct1)
  then have f: "filename ascii_only (asc ''20250101_120000'') (asc ''Whats up'')
     = asc ''20250101_120000_Whats_up.md''"
    unfolding q r by (simp add: asc_def)
  note t2 = filename_shape [of ascii_only "asc ''20250101_120000''" "asc '' a ''"]
  have x: "\<exists>pre core post.
      take 50 (filter (\<lambda>c. is_word ascii_only c \<or> is_space c \<or> c = 45) (asc '' a ''))
        = pre @ core @ post \<and>
      (\<forall>c \<in> set pre. is_space c) \<and> (\<forall>c \<in> set post. is_space c) \<and>
      (core = [] \<or> (\<not> is_space (hd core) \<and> \<not> is_space (last core))) \<and>
      safe_question ascii_only (asc '' a '') = map (\<lambda>c. if c = 32 then 95 else c) core"
    by (rule t2 [THEN conjunct2, THEN conjunct2, THEN conjunct2, THEN conjunct2, THEN conjunct2])
  show ?thesis
    by (intro conjI) (rule m k l e1 e2 q w f x)+
qed

text \<open>
  C8, as stated, fails: a tab is whitespace and stays in the file name; two spaces give
  two underscores; an underscore of the question is not stripped.
\<close>

theorem filename_counterexample:
  "filename ascii_only (asc ''20250101_120000'') [97, 9, 98] = asc ''20250101_120000_a'' @ [9] @ asc ''b.md''
   \<and> is_space 9
   \<and> filename ascii_only (asc ''20250101_120000'') (asc ''a  b'') = asc ''20250101_120000_a__b.md''
   \<and> filename ascii_only (asc ''20250101_120000'') (asc ''a_b'') = asc ''20250101_120000_a_b.md''"
  by (simp add: slug_eval)


section \<open>Failures of a run of the client\<close>

lemma save_fails:
  "(if outputs_exists fs then \<not> outputs_writable fs else \<not> cwd_writable fs) \<Longrightarrow>
   save_to_markdown uni ts d q a outs fs = (Inl (PersistenceError (asc ''Permission denied'')), fs)"
  by (auto simp: save_to_markdown_def mkdir_outputs_def write_text_def Let_def)

lemma answer_question_planner_fails:
  "agent_ainvoke env question = Inl e \<Longrightarrow>
   \<exists>e' printed. answer_question env question fs = (Inl e', fs, printed)"
  by (auto simp: answer_question_def split: sum.splits)

lemma main_planner_fails_fs:
  assumes "agent_ainvoke env (join (asc '' '') (tl argv)) = Inl e"
  shows "fst (snd (main env api_key argv fs)) = fs"
proof -
  from answer_question_planner_fails [OF assms]
  obtain e' printed where "answer_question env (join (asc '' '') (tl argv)) fs = (Inl e', fs, printed)"
    by blast
  then show ?thesis by (simp add: main_def Let_def)
qed

lemma main_planner_fails_printed:
  assumes "agent_ainvoke env (join (asc '' '') (tl argv)) = Inl e"
  shows "SavedLine p \<notin> set (fst (main env api_key argv fs))"
    and "AnswerLines a \<notin> set (fst (main env api_key argv fs))"
proof -
  from answer_question_planner_fails [OF assms]
  obtain e' printed where aq: "answer_question env (join (asc '' '') (tl argv)) fs = (Inl e', fs, printed)"
    by blast
  then have "printed = [] \<or> (\<exists>ts. printed = [ToolsLine ts, ThinkingLine])"
    by (auto simp: answer_question_def Let_def split: sum.splits if_splits prod.splits)
  with aq show "SavedLine p \<notin> set (fst (main env api_key argv fs))"
    and "AnswerLines a \<notin> set (fst (main env api_key argv fs))"
    by (auto simp: main_def Let_def)
qed

lemma main_planner_fails_error:
  assumes "agent_ainvoke env (join (asc '' '') (tl argv)) = Inl e"
    and "api_key \<noteq> None" "api_key \<noteq> Some []" "2 \<le> length argv"
  shows "\<exists>e'. ErrorLine (error_message e') \<in> set (fst (main env api_key argv fs))"
proof -
  from answer_question_planner_fails [OF assms(1)]
  obtain e' printed where aq: "answer_question env (join (asc '' '') (tl argv)) fs = (Inl e', fs, printed)"
    by blast
  with assms(2-4) have "ErrorLine (error_message e') \<in> set (fst (main env api_key argv fs))"
    by (simp add: main_def Let_def)
  then show ?thesis ..
qed

lemmas client_eval = answer_question_def main_def save_to_markdown_def mkdir_outputs_def
  write_text_def answering_env_def failing_env_def answering_agent_def failing_agent_def
  fresh_fs_def readonly_fs_def Let_def

text \<open>
  C2. When the agent raises on the question, \<open>answer_question\<close> raises to its caller
  and leaves the file system as it was: neither the directory nor a report file is
  created. \<open>main\<close> then leaves the file system unchanged as well, prints neither an
  answer nor a report location, and, when it got as far as running the question, prints
  the error line.
\<close>

theorem planner_failure_aborts_run:
  "(agent_ainvoke env question = Inl e \<longrightarrow>
      (\<exists>e' printed. answer_question env question fs = (Inl e', fs, printed))) \<and>
   (agent_ainvoke env (join (asc '' '') (tl argv)) = Inl e \<longrightarrow>
      fst (snd (main env api_key argv fs)) = fs \<and>
      SavedLine p \<notin> set (fst (main env api_key argv fs)) \<and>
      AnswerLines a \<notin> set (fst (main env api_key argv fs))) \<and>
   (agent_ainvoke env (join (asc '' '') (tl argv)) = Inl e \<and>
    api_key \<noteq> None \<and> api_key \<noteq> Some [] \<and> 2 \<le> length argv \<longrightarrow>
      (\<exists>e'. ErrorLine (error_message e') \<in> set (fst (main env api_key argv fs))))"
proof (intro conjI impI)
  assume "agent_ainvoke env question = Inl e"
  then show "\<exists>e' printed. answer_question env question fs = (Inl e', fs, printed)"
    by (rule answer_question_planner_fails)
next
  assume h: "agent_ainvoke env (join (asc '' '') (tl argv)) = Inl e"
  from h show "fst (snd (main env api_key argv fs)) = fs" by (rule main_planner_fails_fs)
  from h show "SavedLine p \<notin> set (fst (main env api_key argv fs))"
    by (rule main_planner_fails_printed)
  from h show "AnswerLines a \<notin> set (fst (main env api_key argv fs))"
    by (rule main_planner_fails_printed)
next
  assume "agent_ainvoke env (join (asc '' '') (tl argv)) = Inl e \<and>
    api_key \<noteq> None \<and> api_key \<noteq> Some [] \<and> 2 \<le> length argv"
  then show "\<exists>e'. ErrorLine (error_message e') \<in> set (fst (main env api_key argv fs))"
    by (blast intro: main_planner_fails_error)
qed

theorem planner_failure_aborts_run_witness:
  "agent_ainvoke failing_env (asc ''Roll 3d6'') = Inl (PlannerError (asc ''planner unreachable'')) \<and>
   agent_ainvoke failing_env (join (asc '' '') (tl [asc ''mcp_client.py'', asc ''Roll'', asc ''3d6'']))
     = Inl (PlannerError (asc ''planner unreachable'')) \<and>
   Some (asc ''sk-1'') \<noteq> None \<and> Some (asc ''sk-1'') \<noteq> Some [] \<and>
   2 \<le> length [asc ''mcp_client.py'', asc ''Roll'', asc ''3d6''] \<and>
   (\<exists>e' printed. answer_question failing_env (asc ''Roll 3d6'') fresh_fs = (Inl e', fresh_fs, printed)) \<and>
   fst (snd (main failing_env (Some (asc ''sk-1'')) [asc ''mcp_client.py'', asc ''Roll'', asc ''3d6''] fresh_fs))
     = fresh_fs \<and>
   (\<exists>e'. ErrorLine (error_message e')
      \<in> set (fst (main failing_env (Some (asc ''sk-1'')) [asc ''mcp_client.py'', asc ''Roll'', asc ''3d6''] fresh_fs)))"
proof -
  have a: "agent_ainvoke failing_env (asc ''Roll 3d6'') = Inl (PlannerError (asc ''planner unreachable''))"
    by (simp add: failing_env_def failing_agent_def)
  have b: "agent_ainvoke failing_env (join (asc '' '') (tl [asc ''mcp_client.py'', asc ''Roll'', asc ''3d6'']))
     = Inl (PlannerError (asc ''planner unreachable''))"
    by (simp add: failing_env_def failing_agent_def)
  have c: "Some (asc ''sk-1'') \<noteq> None" "Some (asc ''sk-1'') \<noteq> Some []"
    "2 \<le> length [asc ''mcp_client.py'', asc ''Roll'', asc ''3d6'']"
    by (simp_all add: asc_def)
  note t = planner_failure_aborts_run [of failing_env "asc ''Roll 3d6''"
      "PlannerError (asc ''planner unreachable'')" fresh_fs
      "[asc ''mcp_client.py'', asc ''Roll'', asc ''3d6'']" "Some (asc ''sk-1'')"]
  from t a b c show ?thesis by blast
qed

text \<open>
  C5, as the code has it. When the report cannot be written, \<open>answer_question\<close>
  raises the persistence error instead of returning the answer; \<open>main\<close> prints the
  text of the error and the generic hint, and does not print the answer.
\<close>

theorem persistence_failure_loses_answer:
  "get_tools env = Inr ts \<and> agent_ainvoke env question = Inr msgs \<and> msgs \<noteq> [] \<and>
   (if outputs_exists fs then \<not> outputs_writable fs else \<not> cwd_writable fs) \<longrightarrow>
     answer_question env question fs
       = (Inl (PersistenceError (asc ''Permission denied'')), fs, [ToolsLine ts, ThinkingLine]) \<and>
     (api_key \<noteq> None \<and> api_key \<noteq> Some [] \<and> 2 \<le> length argv \<and>
      question = join (asc '' '') (tl argv) \<longrightarrow>
        main env api_key argv fs
          = ([Banner question, ToolsLine ts, ThinkingLine,
              ErrorLine (asc ''Permission denied''), HintLine], fs, Returned))"
  by (auto simp: answer_question_def main_def Let_def save_fails)

theorem persistence_failure_loses_answer_witness:
  "get_tools answering_env = Inr [asc ''roll_dice''] \<and>
   agent_ainvoke answering_env (asc ''Roll 1d6'')
     = Inr [HumanMessage (asc ''Roll 1d6''), ToolMessage (asc ''4''), AIMessage (asc ''You rolled 4'')] \<and>
   outputs_exists readonly_fs \<and> \<not> outputs_writable readonly_fs \<and>
   answer_question answering_env (asc ''Roll 1d6'') readonly_fs
     = (Inl (PersistenceError (asc ''Permission denied'')), readonly_fs,
        [ToolsLine [asc ''roll_dice''], ThinkingLine])"
proof -
  have g: "get_tools answering_env = Inr [asc ''roll_dice'']"
    by (simp add: answering_env_def)
  have a: "agent_ainvoke answering_env (asc ''Roll 1d6'')
     = Inr [HumanMessage (asc ''Roll 1d6''), ToolMessage (asc ''4''), AIMessage (asc ''You rolled 4'')]"
    by (simp add: answering_env_def answering_agent_def)
  have n: "[HumanMessage (asc ''Roll 1d6''), ToolMessage (asc ''4''), AIMessage (asc ''You rolled 4'')] \<noteq> []"
    by simp
  have e: "outputs_exists readonly_fs" and w: "\<not> outputs_writable readonly_fs"
    by (simp_all add: readonly_fs_def)
  then have f: "if outputs_exists readonly_fs then \<not> outputs_writable readonly_fs
                else \<not> cwd_writable readonly_fs"
    by simp
  have pre: "get_tools answering_env = Inr [asc ''roll_dice''] \<and>
      agent_ainvoke answering_env (asc ''Roll 1d6'')
        = Inr [HumanMessage (asc ''Roll 1d6''), ToolMessage (asc ''4''), AIMessage (asc ''You rolled 4'')] \<and>
      [HumanMessage (asc ''Roll 1d6''), ToolMessage (asc ''4''), AIMessage (asc ''You rolled 4'')] \<noteq> [] \<and>
      (if outputs_exists readonly_fs then \<not> outputs_writable readonly_fs
       else \<not> cwd_writable readonly_fs)"
    by (intro conjI) (rule g a n f)+
  have r: "answer_question answering_env (asc ''Roll 1d6'') readonly_fs
     = (Inl (PersistenceError (asc ''Permission denied'')), readonly_fs,
        [ToolsLine [asc ''roll_dice''], ThinkingLine])"
    by (rule persistence_failure_loses_answer [THEN mp, OF pre, THEN conjunct1])
  show ?thesis by (intro conjI) (rule g a e w r)+
qed


text \<open>
  C5, as stated, fails: with a read-only \<open>outputs\<close> directory the answer
  \<open>You rolled 4\<close>, which is returned when the directory can be written, is neither
  returned nor printed.
\<close>

theorem persistence_failure_counterexample:
  "answer_question answering_env (asc ''Roll 1d6'') readonly_fs
     = (Inl (PersistenceError (asc ''Permission denied'')), readonly_fs,
        [ToolsLine [asc ''roll_dice''], ThinkingLine]) \<and>
   main answering_env (Some (asc ''sk-1'')) [asc ''mcp_client.py'', asc ''Roll'', asc ''1d6''] readonly_fs
     = ([Banner (asc ''Roll 1d6''), ToolsLine [asc ''roll_dice''], ThinkingLine,
         ErrorLine (asc ''Permission denied''), HintLine], readonly_fs, Returned) \<and>
   fst (answer_question answering_env (asc ''Roll 1d6'') fresh_fs)
     = Inr (asc ''You rolled 4'', asc ''outputs/20250101_120000_Roll_1d6.md'')"
  apply (simp add: client_eval)
  apply (simp add: filename_def safe_question_def keep_char_def is_word_def is_space_def
      strip_def replace_space_def asc_def ascii_only_def)
  done

section \<open>Properties of the workflow\<close>

lemmas graph_eval = run_workflow_def get_nasa_data_def get_news_data_def create_report_def
  mixed_env_def silent_env_def twice_env_def mixed_agent_def twice_agent_def
  mixed_planner_def twice_planner_def mixed_response_def twice_response_def news_request_def
  summary_def silent_summary_def apod_tool_def echo_def initial_state_def nasa_request_def Let_def

lemma invoke_named_unknown:
  "n \<notin> tool_name ` set ts \<Longrightarrow> invoke_named ts n args = Inr None"
  by (induction ts) auto

lemma invoke_named_find:
  "find (\<lambda>t. tool_name t = n) ts = Some t \<Longrightarrow> invoke_named ts n args =
     (case tool_ainvoke t args of Inl e \<Rightarrow> Inl e | Inr r \<Rightarrow> Inr (Some r))"
  by (induction ts) (auto split: if_splits)


text \<open>
  C3, as the code has it. When the planner answers with a call to a name that no tool
  has and a call to a tool whose invocation returns, in either order, the call to the
  unknown name is skipped without any trace (no entry, no error text, no exception) and
  the result of the other is stored in the slot of the node; the run completes, and the
  final report is the text the summarising model returned, whatever it is.
\<close>

theorem unknown_tool_is_skipped:
  assumes "create_mcp_agent env = Inr ag"
    and "\<forall>msgs. llm_with_tools ag msgs = Inr resp"
    and "tool_calls resp = [(bad, a1), (good, a2)] \<or> tool_calls resp = [(good, a2), (bad, a1)]"
    and "bad \<notin> tool_name ` set (tools ag)"
    and "find (\<lambda>t. tool_name t = good) (tools ag) = Some t"
    and "tool_ainvoke t a2 = Inr r"
    and "\<forall>msgs. llm_ainvoke env msgs = Inr text"
  shows "run_workflow env st =
     Inr (st\<lparr>messages := messages st @ [nasa_request],
              nasa_data := r, news_data := r, final_report := text\<rparr>,
          [(Nasa_data, r), (News_data, r), (Final_report, text)])"
proof -
  have i1: "\<And>a. invoke_named (tools ag) bad a = Inr None"
    using assms(4) by (rule invoke_named_unknown)
  have i2: "invoke_named (tools ag) good a2 = Inr (Some r)"
    using assms(6) by (simp add: invoke_named_find [OF assms(5)])
  have two: "\<And>sl s l. run_tool_calls sl (tools ag) (tool_calls resp) (s, l)
      = Inr (assign sl r s, l @ [(sl, r)])"
    using assms(3) by (auto simp: i1 i2)
  have n: "get_nasa_data env (st, []) =
      Inr (st\<lparr>messages := messages st @ [nasa_request], nasa_data := r\<rparr>, [(Nasa_data, r)])"
    using assms(1,2) by (simp add: get_nasa_data_def Let_def two nasa_request_def)
  have w: "get_news_data env
        (st\<lparr>messages := messages st @ [nasa_request], nasa_data := r\<rparr>, [(Nasa_data, r)]) =
      Inr (st\<lparr>messages := messages st @ [nasa_request], nasa_data := r, news_data := r\<rparr>,
           [(Nasa_data, r), (News_data, r)])"
    using assms(1,2) by (simp add: get_news_data_def Let_def two)
  have c: "create_report env
        (st\<lparr>messages := messages st @ [nasa_request], nasa_data := r, news_data := r\<rparr>,
         [(Nasa_data, r), (News_data, r)]) =
      Inr (st\<lparr>messages := messages st @ [nasa_request], nasa_data := r, news_data := r,
              final_report := text\<rparr>,
           [(Nasa_data, r), (News_data, r), (Final_report, text)])"
    using assms(7) by (simp add: create_report_def)
  show ?thesis by (simp add: run_workflow_def n w c)
qed

theorem unknown_tool_is_skipped_witness:
  "run_workflow mixed_env initial_state =
     Inr (initial_state\<lparr>messages := messages initial_state @ [nasa_request],
              nasa_data := asc ''picture'', news_data := asc ''picture'',
              final_report := asc ''report''\<rparr>,
          [(Nasa_data, asc ''picture''), (News_data, asc ''picture''),
           (Final_report, asc ''report'')]) \<and>
   run_workflow swapped_env initial_state =
     Inr (initial_state\<lparr>messages := messages initial_state @ [nasa_request],
              nasa_data := asc ''picture'', news_data := asc ''picture'',
              final_report := asc ''report''\<rparr>,
          [(Nasa_data, asc ''picture''), (News_data, asc ''picture''),
           (Final_report, asc ''report'')])"
proof
  have b: "asc ''no_such_tool'' \<notin> tool_name ` set [apod_tool]"
    by (simp add: apod_tool_def asc_def)
  have f: "find (\<lambda>t. tool_name t = asc ''get_astronomy_picture'') [apod_tool] = Some apod_tool"
    by (simp add: apod_tool_def)
  have i: "tool_ainvoke apod_tool (asc ''picture'') = Inr (asc ''picture'')"
    by (simp add: apod_tool_def echo_def)
  show "run_workflow mixed_env initial_state =
     Inr (initial_state\<lparr>messages := messages initial_state @ [nasa_request],
              nasa_data := asc ''picture'', news_data := asc ''picture'',
              final_report := asc ''report''\<rparr>,
          [(Nasa_data, asc ''picture''), (News_data, asc ''picture''),
           (Final_report, asc ''report'')])"
  proof (rule unknown_tool_is_skipped [of mixed_env mixed_agent mixed_response
        "asc ''no_such_tool''" "asc ''x''" "asc ''get_astronomy_picture''" "asc ''picture''"
        apod_tool])
    show "create_mcp_agent mixed_env = Inr mixed_agent" by (simp add: mixed_env_def)
    show "\<forall>msgs. llm_with_tools mixed_agent msgs = Inr mixed_response"
      by (simp add: mixed_agent_def mixed_planner_def)
    show "tool_calls mixed_response =
        [(asc ''no_such_tool'', asc ''x''), (asc ''get_astronomy_picture'', asc ''picture'')] \<or>
      tool_calls mixed_response =
        [(asc ''get_astronomy_picture'', asc ''picture''), (asc ''no_such_tool'', asc ''x'')]"
      by (simp add: mixed_response_def)
    show "asc ''no_such_tool'' \<notin> tool_name ` set (tools mixed_agent)"
      using b by (simp add: mixed_agent_def)
    show "find (\<lambda>t. tool_name t = asc ''get_astronomy_picture'') (tools mixed_agent) = Some apod_tool"
      using f by (simp add: mixed_agent_def)
    show "tool_ainvoke apod_tool (asc ''picture'') = Inr (asc ''picture'')" by (rule i)
    show "\<forall>msgs. llm_ainvoke mixed_env msgs = Inr (asc ''report'')"
      by (simp add: mixed_env_def summary_def)
  qed
  show "run_workflow swapped_env initial_state =
     Inr (initial_state\<lparr>messages := messages initial_state @ [nasa_request],
              nasa_data := asc ''picture'', news_data := asc ''picture'',
              final_report := asc ''report''\<rparr>,
          [(Nasa_data, asc ''picture''), (News_data, asc ''picture''),
           (Final_report, asc ''report'')])"
  proof (rule unknown_tool_is_skipped [of swapped_env swapped_agent swapped_response
        "asc ''no_such_tool''" "asc ''x''" "asc ''get_astronomy_picture''" "asc ''picture''"
        apod_tool])
    show "create_mcp_agent swapped_env = Inr swapped_agent" by (simp add: swapped_env_def)
    show "\<forall>msgs. llm_with_tools swapped_agent msgs = Inr swapped_response"
      by (simp add: swapped_agent_def swapped_planner_def)
    show "tool_calls swapped_response =
        [(asc ''no_such_tool'', asc ''x''), (asc ''get_astronomy_picture'', asc ''picture'')] \<or>
      tool_calls swapped_response =
        [(asc ''get_astronomy_picture'', asc ''picture''), (asc ''no_such_tool'', asc ''x'')]"
      by (simp add: swapped_response_def)
    show "asc ''no_such_tool'' \<notin> tool_name ` set (tools swapped_agent)"
      using b by (simp add: swapped_agent_def)
    show "find (\<lambda>t. tool_name t = asc ''get_astronomy_picture'') (tools swapped_agent) = Some apod_tool"
      using f by (simp add: swapped_agent_def)
    show "tool_ainvoke apod_tool (asc ''picture'') = Inr (asc ''picture'')" by (rule i)
    show "\<forall>msgs. llm_ainvoke swapped_env msgs = Inr (asc ''report'')"
      by (simp add: swapped_env_def summary_def)
  qed
qed

text \<open>
  C3, as stated, fails: the only entries written are the results of the valid call,
  none records the unknown tool; and the final report is empty when the summarising
  model returns an empty text.
\<close>

theorem unknown_tool_counterexample:
  "run_workflow mixed_env initial_state =
     Inr (\<lparr>messages = [HumanMessage (asc ''Get space updates''), nasa_request],
           nasa_data = asc ''picture'', news_data = asc ''picture'',
           final_report = asc ''report''\<rparr>,
          [(Nasa_data, asc ''picture''), (News_data, asc ''picture''),
           (Final_report, asc ''report'')]) \<and>
   run_workflow silent_env initial_state =
     Inr (\<lparr>messages = [HumanMessage (asc ''Get space updates''), nasa_request],
           nasa_data = asc ''picture'', news_data = asc ''picture'',
           final_report = []\<rparr>,
          [(Nasa_data, asc ''picture''), (News_data, asc ''picture''),
           (Final_report, [])])"
  by (simp add: graph_eval asc_def)

















section \<open>The tools without their keys\<close>

text \<open>
  C9. The two news tools return the message about the missing key. \<open>web_search\<close>
  does not: with a client whose calls raise, as without a key, the exception of the
  fallback leaves the tool.
\<close>

theorem web_search_raises_without_key:
  "web_search keyless_client (asc ''JWST nebula photos'')
     = Inl (ToolError (asc ''Unauthorized: missing or invalid API key.'')) \<and>
   get_top_headlines None http_get country category query = Inr missing_news_key \<and>
   search_news None http_get week_ago query' from_date sort_by = Inr missing_news_key"
  by (simp add: web_search_def keyless_client_def keyless_search_def keyless_context_def
      get_top_headlines_def search_news_def absent_def)

end
